theory Spec2Isabelle
  imports Main "HOL-Library.Word" "HOL-Library.Sublist"
begin

text \<open>
  A model of \<^verbatim>\<open>index.tsx\<close>, the single module of the image generation page: the prompt
  it composes, its history in the local storage, and the life of a call of \<^verbatim>\<open>generate\<close>
  from the click to the \<^verbatim>\<open>finally\<close> block. The page is a record of the state variables and
  of the element properties that the module reads or writes; a listener is a function on
  that record. An \<^verbatim>\<open>async\<close> function is cut at its \<^verbatim>\<open>await\<close>s: it runs to the first one,
  leaves a frame behind, and is resumed later with what it waited for, while other events
  may happen in between. What is thrown is a value, and a function that can throw returns
  a sum.
\<close>

section \<open>JavaScript strings\<close>

text \<open>
  A JavaScript string is a sequence of UTF-16 code units. The literals of \<^verbatim>\<open>index.tsx\<close>
  are ASCII; \<open>js\<close> gives the code units of such a literal.
\<close>

type_synonym jschar = "16 word"
type_synonym jsstring = "jschar list"

definition js :: "string \<Rightarrow> jsstring" where
  "js s = map of_char s"

text \<open>
  \<^verbatim>\<open>String.prototype.trim\<close> strips the code units that ECMAScript calls WhiteSpace or
  LineTerminator from both ends: TAB, VT, FF, SP, NBSP, ZWNBSP, the other members of the
  Unicode category Zs, and LF, CR, LS, PS.
\<close>

definition WhiteSpace :: "jschar \<Rightarrow> bool" where
  "WhiteSpace c \<longleftrightarrow>
     c \<in> set [0x0009, 0x000B, 0x000C, 0x0020, 0x00A0, 0xFEFF,
              0x1680, 0x202F, 0x205F, 0x3000] \<or> (0x2000 \<le> c \<and> c \<le> 0x200A)"

definition LineTerminator :: "jschar \<Rightarrow> bool" where
  "LineTerminator c \<longleftrightarrow> c \<in> set [0x000A, 0x000D, 0x2028, 0x2029]"

definition trim :: "jsstring \<Rightarrow> jsstring" where
  "trim s =
     (let ws = (\<lambda>c. WhiteSpace c \<or> LineTerminator c)
      in rev (dropWhile ws (rev (dropWhile ws s))))"

text \<open>\<^verbatim>\<open>s.includes(sub)\<close>: \<open>sub\<close> occurs in \<open>s\<close> as a contiguous run of code units.\<close>

fun js_includes :: "jsstring \<Rightarrow> jsstring \<Rightarrow> bool" where
  "js_includes [] sub = (sub = [])"
| "js_includes (c # cs) sub = (prefix sub (c # cs) \<or> js_includes cs sub)"

text \<open>\<^verbatim>\<open>s.replace(/-/g, ' ')\<close>: every HYPHEN-MINUS becomes a SPACE.\<close>

definition replace_hyphens :: "jsstring \<Rightarrow> jsstring" where
  "replace_hyphens s = map (\<lambda>c. if c = 0x002D then 0x0020 else c) s"

text \<open>\<^verbatim>\<open>parts.join(sep)\<close>\<close>

fun join :: "jsstring \<Rightarrow> jsstring list \<Rightarrow> jsstring" where
  "join sep [] = []"
| "join sep [x] = x"
| "join sep (x # y # ys) = x @ sep @ join sep (y # ys)"

text \<open>
  \<^verbatim>\<open>s.split(sep)[0]\<close> for a non-empty separator: the part of \<open>s\<close> before the first
  occurrence of \<open>sep\<close>, all of \<open>s\<close> when there is none. (The only separator of the program
  is the literal \<^verbatim>\<open>', photorealistic'\<close>.)
\<close>

fun split_first :: "jsstring \<Rightarrow> jsstring \<Rightarrow> jsstring" where
  "split_first sep [] = []"
| "split_first sep (c # cs) = (if prefix sep (c # cs) then [] else c # split_first sep cs)"

section \<open>The prompt sent to the image model\<close>

text \<open>
  The state variables of the module (\<^verbatim>\<open>let prompt = ''\<close> and the four after it) that the
  composed prompt is read from.
\<close>

record inputs =
  prompt :: jsstring
  negativePrompt :: jsstring
  aspectRatio :: jsstring
  qualityPreset :: jsstring
  cameraView :: jsstring

definition commonKeywords :: jsstring where
  "commonKeywords =
     join (js '', '')
       [js ''photorealistic'', js ''film still'', js ''movie scene'', js ''fit prompt'',
        js ''no distortion'', js ''no deformations'', js ''no text overlays'']"

text \<open>The \<^verbatim>\<open>switch (qualityPreset)\<close>; a preset outside the three cases leaves the empty string.\<close>

definition qualityKeywords :: "jsstring \<Rightarrow> jsstring" where
  "qualityKeywords preset =
     (if preset = js ''sd'' then
        js ''720p resolution, standard quality, sharp focus, basic detail''
      else if preset = js ''hd'' then
        js ''1080p, Full HD resolution, high quality, high detail, realistic look''
      else if preset = js ''ultra'' then
        js ''4K+, ultra realistic, shot on ARRI ALEXA LF, Anamorphic Lenses, High Contrast, Gritty Film Grain, Shallow Depth of Field, extreme atmospheric realism, deep blacks (Chiaroscuro)''
      else [])"

definition cameraViewPrompt :: "jsstring \<Rightarrow> jsstring" where
  "cameraViewPrompt view =
     (if view \<noteq> js ''default''
      then js '', Shot from a '' @ replace_hyphens view @ js '' perspective''
      else [])"

text \<open>The value of \<^verbatim>\<open>finalPrompt\<close> when \<^verbatim>\<open>generateImage\<close> is called.\<close>

definition finalPrompt :: "'a inputs_scheme \<Rightarrow> jsstring" where
  "finalPrompt s =
     (let composed = prompt s @ cameraViewPrompt (cameraView s) @ js '', ''
                       @ qualityKeywords (qualityPreset s) @ js '', '' @ commonKeywords
      in if trim (negativePrompt s) \<noteq> []
         then composed @ js ''. Negative prompt: '' @ trim (negativePrompt s)
         else composed)"

section \<open>Values thrown, and what the host provides\<close>

text \<open>
  A thrown value is an \<^verbatim>\<open>Error\<close> instance with its message, or anything else
  (\<^verbatim>\<open>e instanceof Error ? e.message : 'An unknown error occurred.'\<close>). The message of an
  \<^verbatim>\<open>Error\<close> is a string, so the test \<^verbatim>\<open>typeof errorMessage === 'string'\<close> holds.
\<close>

datatype thrown = ErrorObject jsstring | OtherValue

record HistoryItem =
  item_id :: jsstring
  item_prompt :: jsstring
  imageUrl :: jsstring
  timestamp :: int

text \<open>
  What \<^verbatim>\<open>JSON.parse\<close> can return, as far as the program can tell the values apart. The
  program reads \<^verbatim>\<open>length\<close> of the value and calls \<^verbatim>\<open>unshift\<close> and \<^verbatim>\<open>forEach\<close> on it: an
  array has all three, \<^verbatim>\<open>null\<close> has no members at all, a string has a \<^verbatim>\<open>length\<close> only,
  and a number, a boolean or an object has none of the three, but for an object with a
  member \<^verbatim>\<open>length\<close> of its own, which is a JSON value and never a function: the flag of
  \<open>JOther\<close> says whether that member is the number 0. The elements of an array are taken at
  the type \<^verbatim>\<open>HistoryItem\<close> that \<^verbatim>\<open>getHistory\<close> declares.
\<close>

datatype parsed = JArray "HistoryItem list" | JNull | JString jsstring | JOther bool

text \<open>
  What the program takes from its host and does not define: \<^verbatim>\<open>JSON.parse\<close> (which throws
  on text that is not JSON), \<^verbatim>\<open>JSON.stringify\<close> on the arrays that the program writes,
  \<^verbatim>\<open>String.prototype.toLowerCase\<close>, the message of the \<^verbatim>\<open>TypeError\<close> thrown for a member
  (named by the second argument) that a value lacks, what reading \<^verbatim>\<open>src\<close> of an image
  gives for the string assigned to it, the value of \<^verbatim>\<open>process.env.API_KEY\<close> (\<open>None\<close> when
  undefined), and whether \<^verbatim>\<open>window.aistudio?.openSelectKey\<close> is there.
\<close>

record platform =
  JSON_parse :: "jsstring \<Rightarrow> thrown + parsed"
  JSON_stringify :: "HistoryItem list \<Rightarrow> jsstring"
  toLowerCase :: "jsstring \<Rightarrow> jsstring"
  TypeError_message :: "parsed \<Rightarrow> jsstring \<Rightarrow> jsstring"
  src_getter :: "jsstring \<Rightarrow> jsstring"
  API_KEY :: "jsstring option"
  openSelectKey_defined :: bool

section \<open>History functions\<close>

definition HISTORY_KEY :: jsstring where
  "HISTORY_KEY = js ''imageGenerationHistory''"

definition MAX_HISTORY_ITEMS :: nat where
  "MAX_HISTORY_ITEMS = 30"

type_synonym storage = "jsstring \<rightharpoonup> jsstring"

text \<open>
  \<^verbatim>\<open>getHistory\<close>: \<^verbatim>\<open>!historyJson\<close> holds for \<^verbatim>\<open>null\<close> (no entry) and for the empty string;
  the \<^verbatim>\<open>catch\<close> turns whatever \<^verbatim>\<open>JSON.parse\<close> throws into \<^verbatim>\<open>[]\<close>; what \<^verbatim>\<open>JSON.parse\<close>
  returns is returned as it is, an array or not.
\<close>

definition getHistory :: "platform \<Rightarrow> storage \<Rightarrow> thrown + parsed" where
  "getHistory pf store =
     (case store HISTORY_KEY of
        None \<Rightarrow> Inr (JArray [])
      | Some historyJson \<Rightarrow>
          if historyJson = [] then Inr (JArray [])
          else (case JSON_parse pf historyJson of
                  Inr history \<Rightarrow> Inr history
                | Inl e \<Rightarrow> Inr (JArray [])))"

text \<open>
  \<^verbatim>\<open>saveHistory\<close>: \<^verbatim>\<open>localStorage.setItem\<close> can throw (the quota); \<open>setItem_throws\<close> says
  whether this call does, and with what.
\<close>

definition saveHistory ::
  "platform \<Rightarrow> thrown option \<Rightarrow> HistoryItem list \<Rightarrow> storage \<Rightarrow> thrown + storage" where
  "saveHistory pf setItem_throws history store =
     (case setItem_throws of
        Some e \<Rightarrow> Inl e
      | None \<Rightarrow> Inr (store(HISTORY_KEY \<mapsto> JSON_stringify pf history)))"

text \<open>
  \<^verbatim>\<open>addToHistory\<close>: on a value that is not an array, \<^verbatim>\<open>history.unshift(item)\<close> throws a
  \<^verbatim>\<open>TypeError\<close>.
\<close>

definition addToHistory ::
  "platform \<Rightarrow> thrown option \<Rightarrow> HistoryItem \<Rightarrow> storage \<Rightarrow> thrown + storage" where
  "addToHistory pf setItem_throws item store =
     (case getHistory pf store of
        Inl e \<Rightarrow> Inl e
      | Inr (JArray stored) \<Rightarrow>
          let history = item # stored;
              history = (if length history > MAX_HISTORY_ITEMS
                         then take MAX_HISTORY_ITEMS history else history)
          in saveHistory pf setItem_throws history store
      | Inr other \<Rightarrow> Inl (ErrorObject (TypeError_message pf other (js ''unshift''))))"

text \<open>A run of appends, each one succeeding in its write, oldest first.\<close>

fun addAllToHistory :: "platform \<Rightarrow> HistoryItem list \<Rightarrow> storage \<Rightarrow> thrown + storage" where
  "addAllToHistory pf [] store = Inr store"
| "addAllToHistory pf (item # items) store =
     (case addToHistory pf None item store of
        Inl e \<Rightarrow> Inl e
      | Inr store' \<Rightarrow> addAllToHistory pf items store')"

section \<open>The page\<close>

datatype status = InnerText jsstring | InnerHTML jsstring

text \<open>A request handed to \<^verbatim>\<open>ai.models.generateImages\<close>, with the key the client was made with.\<close>

record request =
  req_apiKey :: jsstring
  req_model :: jsstring
  req_prompt :: jsstring
  req_aspectRatio :: "jsstring option"

text \<open>
  Where a call of \<^verbatim>\<open>generate\<close> can be suspended with work left to do: at the request to the
  image model (inside \<^verbatim>\<open>generateImage\<close>), holding its \<^verbatim>\<open>finalPrompt\<close>, and at the key
  dialog opened from the \<^verbatim>\<open>catch\<close> block, with the \<^verbatim>\<open>finally\<close> block still to run.
\<close>

datatype frame = AwaitGenerateImages jsstring | AwaitOpenSelectKey

text \<open>
  The state variables, the properties of the DOM elements that the program reads or writes,
  the storage, what has gone out to the two collaborators, and the suspended calls.
\<close>

record app = inputs +
  promptEl_value :: jsstring
  statusEl :: status
  outputImage_src :: jsstring
  outputImage_display :: jsstring
  downloadButton_disabled :: bool
  generateButton_disabled :: bool
  promptEl_disabled :: bool
  negativePromptEl_disabled :: bool
  aspectRatioSelect_disabled :: bool
  qualityPresetSelect_disabled :: bool
  cameraViewSelect_disabled :: bool
  historyContainer_hidden :: bool
  historyGrid :: "HistoryItem list"
  localStorage :: storage
  generateImages_calls :: "request list"
  openSelectKey_calls :: nat
  suspended :: "frame list"

definition showStatusError :: "jsstring \<Rightarrow> app \<Rightarrow> app" where
  "showStatusError message s =
     s\<lparr>statusEl := InnerHTML (js ''<span class='' @ [0x0022] @ js ''text-red-400'' @ [0x0022]
                                @ js ''>'' @ message @ js ''</span>'')\<rparr>"

definition setControlsDisabled :: "bool \<Rightarrow> app \<Rightarrow> app" where
  "setControlsDisabled disabled s =
     s\<lparr>generateButton_disabled := disabled,
       promptEl_disabled := disabled,
       negativePromptEl_disabled := disabled,
       aspectRatioSelect_disabled := disabled,
       qualityPresetSelect_disabled := disabled,
       cameraViewSelect_disabled := disabled\<rparr>"

text \<open>
  \<^verbatim>\<open>openApiKeyDialog\<close>, up to its \<^verbatim>\<open>await\<close>: the flag says whether the caller is left waiting
  for the collaborator's dialog.
\<close>

definition openApiKeyDialog :: "platform \<Rightarrow> app \<Rightarrow> app \<times> bool" where
  "openApiKeyDialog pf s =
     (if openSelectKey_defined pf
      then (s\<lparr>openSelectKey_calls := Suc (openSelectKey_calls s)\<rparr>, True)
      else (showStatusError
              (js ''API key selection is not available. Please configure the API_KEY environment variable.'')
              s, False))"

text \<open>
  \<^verbatim>\<open>history.length === 0\<close>, for a value that has members (\<^verbatim>\<open>null\<close> is dealt with before).
\<close>

fun length_is_0 :: "parsed \<Rightarrow> bool" where
  "length_is_0 (JArray items) = (items = [])"
| "length_is_0 (JString s) = (s = [])"
| "length_is_0 (JOther zero) = zero"
| "length_is_0 JNull = False"

text \<open>
  \<^verbatim>\<open>renderHistory\<close>; \<open>Inl (e, s')\<close> is \<open>e\<close> thrown in state \<open>s'\<close>. Reading \<^verbatim>\<open>length\<close> of
  \<^verbatim>\<open>null\<close> throws at once; a value that is not an array and whose \<^verbatim>\<open>length\<close> is not 0
  throws at \<^verbatim>\<open>forEach\<close>, after the container was shown and the grid emptied.
\<close>

definition renderHistory :: "platform \<Rightarrow> app \<Rightarrow> (thrown \<times> app) + app" where
  "renderHistory pf s =
     (case getHistory pf (localStorage s) of
        Inl e \<Rightarrow> Inl (e, s)
      | Inr history \<Rightarrow>
          if history = JNull then
            Inl (ErrorObject (TypeError_message pf history (js ''length'')), s)
          else if length_is_0 history then Inr (s\<lparr>historyContainer_hidden := True\<rparr>)
          else
            (let s1 = s\<lparr>historyContainer_hidden := False, historyGrid := []\<rparr>
             in case history of
                  JArray items \<Rightarrow> Inr (s1\<lparr>historyGrid := items\<rparr>)
                | _ \<Rightarrow> Inl (ErrorObject (TypeError_message pf history (js ''forEach'')), s1)))"

section \<open>Generating an image\<close>

definition generateImage_request :: "jsstring \<Rightarrow> jsstring \<Rightarrow> jsstring \<Rightarrow> request" where
  "generateImage_request text apiKey ratio =
     \<lparr>req_apiKey = apiKey,
      req_model = js ''imagen-4.0-generate-001'',
      req_prompt = text,
      req_aspectRatio = (if ratio \<noteq> [] then Some ratio else None)\<rparr>"

text \<open>
  How the request ends: the promise is rejected, or it resolves to a response whose
  \<^verbatim>\<open>generatedImages\<close> is undefined or a list of images, here their \<^verbatim>\<open>imageBytes\<close>.
\<close>

datatype api_result = Rejected thrown | Response "jsstring list option"

definition generateImage_resume :: "api_result \<Rightarrow> app \<Rightarrow> thrown + app" where
  "generateImage_resume r s =
     (case r of
        Rejected e \<Rightarrow> Inl e
      | Response None \<Rightarrow>
          Inl (ErrorObject (js ''No images were generated. The prompt may have been blocked.''))
      | Response (Some []) \<Rightarrow>
          Inl (ErrorObject (js ''No images were generated. The prompt may have been blocked.''))
      | Response (Some (base64ImageBytes # _)) \<Rightarrow>
          Inr (s\<lparr>outputImage_src := js ''data:image/jpeg;base64,'' @ base64ImageBytes,
                 outputImage_display := js ''block''\<rparr>))"

text \<open>
  \<^verbatim>\<open>generate\<close> up to its first \<^verbatim>\<open>await\<close>, with the frame it leaves suspended. Without a
  key nothing follows the dialog, so no frame is kept.
\<close>

definition generate :: "platform \<Rightarrow> app \<Rightarrow> app \<times> frame option" where
  "generate pf s =
     (let noKey = (fst (openApiKeyDialog pf
                     (showStatusError (js ''API key is not configured. Please add your API key.'') s)),
                   None)
      in case API_KEY pf of
           None \<Rightarrow> noKey
         | Some apiKey \<Rightarrow>
             if apiKey = [] then noKey
             else
               let s1 = s\<lparr>statusEl := InnerText (js ''Generating image...''),
                          outputImage_display := js ''none'',
                          downloadButton_disabled := True\<rparr>;
                   s2 = setControlsDisabled True s1;
                   text = finalPrompt s2
               in (s2\<lparr>generateImages_calls :=
                         generateImages_calls s2 @ [generateImage_request text apiKey (aspectRatio s2)]\<rparr>,
                   Some (AwaitGenerateImages text)))"

text \<open>
  What the rest of the \<^verbatim>\<open>try\<close> block reads from outside: the fresh identifier, the clock,
  and whether the write to the storage throws.
\<close>

record success_inputs =
  randomUUID :: jsstring
  Date_now :: int
  setItem_throws :: "thrown option"

text \<open>
  The \<^verbatim>\<open>try\<close> block from the answer of the image model on; \<open>Inl (e, s')\<close> is \<open>e\<close> thrown
  in state \<open>s'\<close>.
\<close>

definition generate_try ::
  "platform \<Rightarrow> jsstring \<Rightarrow> api_result \<Rightarrow> success_inputs \<Rightarrow> app \<Rightarrow> (thrown \<times> app) + app" where
  "generate_try pf text r io s =
     (case generateImage_resume r s of
        Inl e \<Rightarrow> Inl (e, s)
      | Inr s1 \<Rightarrow>
          let s2 = s1\<lparr>statusEl := InnerText (js ''Image generated successfully.''),
                      downloadButton_disabled := False\<rparr>;
              newHistoryItem = \<lparr>item_id = randomUUID io, item_prompt = text,
                                imageUrl = src_getter pf (outputImage_src s2),
                                timestamp = Date_now io\<rparr>
          in case addToHistory pf (setItem_throws io) newHistoryItem (localStorage s2) of
               Inl e \<Rightarrow> Inl (e, s2)
             | Inr store \<Rightarrow> renderHistory pf (s2\<lparr>localStorage := store\<rparr>))"

text \<open>The message for the user and \<^verbatim>\<open>shouldOpenDialog\<close>.\<close>

definition classify :: "platform \<Rightarrow> jsstring \<Rightarrow> jsstring \<times> bool" where
  "classify pf errorMessage =
     (if js_includes errorMessage (js ''Requested entity was not found.'') then
        (js ''Model not found. This can be caused by an invalid API key or permission issues. Please check your API key.'',
         True)
      else if js_includes errorMessage (js ''API_KEY_INVALID'') \<or>
              js_includes errorMessage (js ''API key not valid'') \<or>
              js_includes (toLowerCase pf errorMessage) (js ''permission denied'') then
        (js ''Your API key is invalid. Please add a valid API key.'', True)
      else (js ''Error: '' @ errorMessage, False))"

text \<open>The \<^verbatim>\<open>catch\<close> block up to its \<^verbatim>\<open>await\<close>; the flag as for \<open>openApiKeyDialog\<close>.\<close>

definition generate_catch :: "platform \<Rightarrow> thrown \<Rightarrow> app \<Rightarrow> app \<times> bool" where
  "generate_catch pf e s =
     (let errorMessage = (case e of ErrorObject m \<Rightarrow> m
                                  | OtherValue \<Rightarrow> js ''An unknown error occurred.'');
          (userFriendlyMessage, shouldOpenDialog) = classify pf errorMessage;
          s1 = showStatusError userFriendlyMessage s
      in if shouldOpenDialog then openApiKeyDialog pf s1 else (s1, False))"

text \<open>
  \<^verbatim>\<open>generate\<close> resumed with the answer of the image model: the \<^verbatim>\<open>finally\<close> block runs
  unless the \<^verbatim>\<open>catch\<close> block is left waiting for the dialog.
\<close>

definition generate_resume ::
  "platform \<Rightarrow> jsstring \<Rightarrow> api_result \<Rightarrow> success_inputs \<Rightarrow> app \<Rightarrow> app \<times> frame option" where
  "generate_resume pf text r io s =
     (case generate_try pf text r io s of
        Inr s' \<Rightarrow> (setControlsDisabled False s', None)
      | Inl (e, s') \<Rightarrow>
          (case generate_catch pf e s' of
             (s'', True) \<Rightarrow> (s'', Some AwaitOpenSelectKey)
           | (s'', False) \<Rightarrow> (setControlsDisabled False s'', None)))"

text \<open>
  \<^verbatim>\<open>generate\<close> resumed from the dialog of the \<^verbatim>\<open>catch\<close> block. Whether the dialog's
  promise resolved or was rejected (\<open>Some e\<close>, which then leaves \<^verbatim>\<open>generate\<close> as its
  rejection), the \<^verbatim>\<open>finally\<close> block runs.
\<close>

definition generate_resume_dialog :: "thrown option \<Rightarrow> app \<Rightarrow> app" where
  "generate_resume_dialog rejected s = setControlsDisabled False s"

section \<open>Event listeners\<close>

definition generateButton_click :: "platform \<Rightarrow> app \<Rightarrow> app \<times> frame option" where
  "generateButton_click pf s =
     (if trim (prompt s) = []
      then (showStatusError (js ''Please enter a prompt to generate an image.'') s, None)
      else generate pf s)"

definition clearHistoryButton_click :: "platform \<Rightarrow> bool \<Rightarrow> app \<Rightarrow> app" where
  "clearHistoryButton_click pf confirmed s =
     (if confirmed then
        (case renderHistory pf (s\<lparr>localStorage := (localStorage s)(HISTORY_KEY := None)\<rparr>) of
           Inl (e, s') \<Rightarrow> s'
         | Inr s' \<Rightarrow> s')
      else s)"

text \<open>The listener that \<^verbatim>\<open>renderHistory\<close> puts on the element of a history item.\<close>

definition historyItemEl_click :: "HistoryItem \<Rightarrow> app \<Rightarrow> app" where
  "historyItemEl_click item s =
     (let mainPrompt = split_first (js '', photorealistic'') (item_prompt item)
      in s\<lparr>outputImage_src := imageUrl item,
           outputImage_display := js ''block'',
           downloadButton_disabled := False,
           promptEl_value := mainPrompt,
           prompt := mainPrompt\<rparr>)"

text \<open>
  What can happen to the page: the user types, selects or clicks, or what a suspended call
  waits for arrives (\<open>Settled i\<close> resumes the \<open>i\<close>-th suspended call). A user's input
  reaches an element only while the element is enabled: the browser dispatches no click,
  input or change event on a disabled button, text area or select, and a history item
  cannot be clicked while its container is hidden. The listeners of the download and the
  copy buttons write none of the state kept here and are left out.
\<close>

datatype settlement = ApiSettled api_result success_inputs | DialogSettled "thrown option"

datatype event =
    PromptInput jsstring
  | NegativePromptInput jsstring
  | AspectRatioChange jsstring
  | QualityPresetChange jsstring
  | CameraViewChange jsstring
  | GenerateClick
  | ClearHistoryClick bool
  | HistoryItemClick nat
  | Settled nat settlement

definition suspend :: "app \<times> frame option \<Rightarrow> app" where
  "suspend r =
     (case r of
        (s, None) \<Rightarrow> s
      | (s, Some f) \<Rightarrow> s\<lparr>suspended := suspended s @ [f]\<rparr>)"

definition resume :: "platform \<Rightarrow> nat \<Rightarrow> settlement \<Rightarrow> app \<Rightarrow> app" where
  "resume pf i outcome s =
     (if i < length (suspended s) then
        (let s' = s\<lparr>suspended := take i (suspended s) @ drop (Suc i) (suspended s)\<rparr>
         in case (suspended s ! i, outcome) of
              (AwaitGenerateImages text, ApiSettled r io) \<Rightarrow> suspend (generate_resume pf text r io s')
            | (AwaitOpenSelectKey, DialogSettled rejected) \<Rightarrow> generate_resume_dialog rejected s'
            | _ \<Rightarrow> s)
      else s)"

fun step :: "platform \<Rightarrow> event \<Rightarrow> app \<Rightarrow> app" where
  "step pf (PromptInput v) s =
     (if promptEl_disabled s then s else s\<lparr>promptEl_value := v, prompt := v\<rparr>)"
| "step pf (NegativePromptInput v) s =
     (if negativePromptEl_disabled s then s else s\<lparr>negativePrompt := v\<rparr>)"
| "step pf (AspectRatioChange v) s =
     (if aspectRatioSelect_disabled s then s else s\<lparr>aspectRatio := v\<rparr>)"
| "step pf (QualityPresetChange v) s =
     (if qualityPresetSelect_disabled s then s else s\<lparr>qualityPreset := v\<rparr>)"
| "step pf (CameraViewChange v) s =
     (if cameraViewSelect_disabled s then s else s\<lparr>cameraView := v\<rparr>)"
| "step pf GenerateClick s =
     (if generateButton_disabled s then s else suspend (generateButton_click pf s))"
| "step pf (ClearHistoryClick confirmed) s = clearHistoryButton_click pf confirmed s"
| "step pf (HistoryItemClick i) s =
     (if i < length (historyGrid s) \<and> \<not> historyContainer_hidden s
      then historyItemEl_click (historyGrid s ! i) s else s)"
| "step pf (Settled i outcome) s = resume pf i outcome s"

fun run :: "platform \<Rightarrow> event list \<Rightarrow> app \<Rightarrow> app" where
  "run pf [] s = s"
| "run pf (e # es) s = run pf es (step pf e s)"

section \<open>A concrete host\<close>

text \<open>
  The theorems below hold for every host. To run the program on concrete inputs, here is
  one: a serialisation of histories that has the round-trip property of
  \<^verbatim>\<open>JSON.stringify\<close> and \<^verbatim>\<open>JSON.parse\<close> (in a format much simpler than JSON: a string is
  written as its code units, each after a 1, closed by a 0; a number in unary) and that
  reads the texts \<^verbatim>\<open>null\<close> and \<^verbatim>\<open>{}\<close> as JSON does, the lower-casing of the letters A to Z,
  which is what \<^verbatim>\<open>toLowerCase\<close> does on ASCII text, the wording of a \<^verbatim>\<open>TypeError\<close>, and
  an image whose \<^verbatim>\<open>src\<close> reads as it was assigned.
\<close>

fun write_string :: "jsstring \<Rightarrow> jsstring" where
  "write_string [] = [0]"
| "write_string (c # cs) = 1 # c # write_string cs"

fun read_string :: "jsstring \<Rightarrow> (jsstring \<times> jsstring) option" where
  "read_string [] = None"
| "read_string [m] = (if m = 0 then Some ([], []) else None)"
| "read_string (m # c # rest) =
     (if m = 0 then Some ([], c # rest)
      else if m = 1 then
        (case read_string rest of None \<Rightarrow> None | Some (cs, rest') \<Rightarrow> Some (c # cs, rest'))
      else None)"

definition write_nat :: "nat \<Rightarrow> jsstring" where
  "write_nat n = replicate n 1 @ [0]"

fun read_nat :: "jsstring \<Rightarrow> (nat \<times> jsstring) option" where
  "read_nat [] = None"
| "read_nat (m # rest) =
     (if m = 0 then Some (0, rest)
      else if m = 1 then
        (case read_nat rest of None \<Rightarrow> None | Some (n, rest') \<Rightarrow> Some (Suc n, rest'))
      else None)"

definition write_int :: "int \<Rightarrow> jsstring" where
  "write_int i = (if i < 0 then 1 else 0) # write_nat (nat \<bar>i\<bar>)"

fun read_int :: "jsstring \<Rightarrow> (int \<times> jsstring) option" where
  "read_int [] = None"
| "read_int (sign # rest) =
     (case read_nat rest of
        None \<Rightarrow> None
      | Some (n, rest') \<Rightarrow> Some (if sign = 1 then - int n else int n, rest'))"

definition write_item :: "HistoryItem \<Rightarrow> jsstring" where
  "write_item item =
     write_string (item_id item) @ write_string (item_prompt item)
       @ write_string (imageUrl item) @ write_int (timestamp item)"

definition read_item :: "jsstring \<Rightarrow> (HistoryItem \<times> jsstring) option" where
  "read_item text =
     (case read_string text of None \<Rightarrow> None | Some (a, r1) \<Rightarrow>
      case read_string r1 of None \<Rightarrow> None | Some (b, r2) \<Rightarrow>
      case read_string r2 of None \<Rightarrow> None | Some (c, r3) \<Rightarrow>
      case read_int r3 of None \<Rightarrow> None | Some (t, r4) \<Rightarrow>
        Some (\<lparr>item_id = a, item_prompt = b, imageUrl = c, timestamp = t\<rparr>, r4))"

fun read_items :: "nat \<Rightarrow> jsstring \<Rightarrow> (HistoryItem list \<times> jsstring) option" where
  "read_items 0 text = Some ([], text)"
| "read_items (Suc n) text =
     (case read_item text of None \<Rightarrow> None | Some (item, rest) \<Rightarrow>
      case read_items n rest of None \<Rightarrow> None | Some (items, rest') \<Rightarrow>
        Some (item # items, rest'))"

definition write_history :: "HistoryItem list \<Rightarrow> jsstring" where
  "write_history history = write_nat (length history) @ concat (map write_item history)"

definition read_history :: "jsstring \<Rightarrow> thrown + parsed" where
  "read_history text =
     (if text = js ''null'' then Inr JNull
      else if text = js ''{}'' then Inr (JOther False)
      else
        (case read_nat text of
           None \<Rightarrow> Inl (ErrorObject (js ''Unexpected token''))
         | Some (n, rest) \<Rightarrow>
             (case read_items n rest of
                Some (items, []) \<Rightarrow> Inr (JArray items)
              | _ \<Rightarrow> Inl (ErrorObject (js ''Unexpected token'')))))"

definition lower_ascii :: "jsstring \<Rightarrow> jsstring" where
  "lower_ascii s = map (\<lambda>c. if 0x0041 \<le> c \<and> c \<le> 0x005A then c + 0x0020 else c) s"

definition type_error_text :: "parsed \<Rightarrow> jsstring \<Rightarrow> jsstring" where
  "type_error_text v member =
     (case v of
        JNull \<Rightarrow> js ''Cannot read properties of null (reading '' @ [0x0027] @ member
                   @ [0x0027] @ js '')''
      | _ \<Rightarrow> js ''history.'' @ member @ js '' is not a function'')"

definition host :: platform where
  "host = \<lparr>JSON_parse = read_history, JSON_stringify = write_history,
           toLowerCase = lower_ascii, TypeError_message = type_error_text,
           src_getter = (\<lambda>url. url), API_KEY = Some (js ''key''),
           openSelectKey_defined = True\<rparr>"

text \<open>
  A page as the module leaves it after loading on an empty storage, with the elements
  enabled and nothing shown.
\<close>

definition loaded :: app where
  "loaded =
     \<lparr>prompt = js '''', negativePrompt = js '''', aspectRatio = js ''16:9'',
      qualityPreset = js ''ultra'', cameraView = js ''default'',
      promptEl_value = js '''', statusEl = InnerText (js ''''),
      outputImage_src = js '''', outputImage_display = js ''none'',
      downloadButton_disabled = True, generateButton_disabled = False,
      promptEl_disabled = False, negativePromptEl_disabled = False,
      aspectRatioSelect_disabled = False, qualityPresetSelect_disabled = False,
      cameraViewSelect_disabled = False, historyContainer_hidden = True, historyGrid = [],
      localStorage = Map.empty, generateImages_calls = [], openSelectKey_calls = 0,
      suspended = []\<rparr>"

definition sample_item :: "nat \<Rightarrow> HistoryItem" where
  "sample_item n = \<lparr>item_id = write_nat n, item_prompt = js ''a cat'',
                     imageUrl = js ''data:image/jpeg;base64,AAAA'', timestamp = int n\<rparr>"

text \<open>The six controls that \<^verbatim>\<open>setControlsDisabled\<close> switches are all enabled.\<close>

definition controls_enabled :: "app \<Rightarrow> bool" where
  "controls_enabled s \<longleftrightarrow>
     \<not> generateButton_disabled s \<and> \<not> promptEl_disabled s \<and> \<not> negativePromptEl_disabled s
     \<and> \<not> aspectRatioSelect_disabled s \<and> \<not> qualityPresetSelect_disabled s
     \<and> \<not> cameraViewSelect_disabled s"

text \<open>
  No call of \<^verbatim>\<open>generate\<close> is suspended, or one is and the generate button is disabled.
\<close>

definition single_flight :: "app \<Rightarrow> bool" where
  "single_flight s \<longleftrightarrow>
     suspended s = [] \<or> (length (suspended s) = 1 \<and> generateButton_disabled s)"

section \<open>Facts about strings and the concrete host\<close>

lemma trim_Nil: "trim [] = []"
  by (simp add: trim_def)

lemma read_write_string: "read_string (write_string s @ rest) = Some (s, rest)"
proof (induction s)
  case Nil
  show ?case by (cases rest) simp_all
next
  case (Cons c s)
  then show ?case by simp
qed

lemma read_write_nat: "read_nat (write_nat n @ rest) = Some (n, rest)"
  by (induction n) (simp_all add: write_nat_def)

lemma read_write_int: "read_int (write_int i @ rest) = Some (i, rest)"
  by (simp add: write_int_def read_write_nat)

lemma read_write_item: "read_item (write_item item @ rest) = Some (item, rest)"
  by (simp add: read_item_def write_item_def read_write_string read_write_int)

lemma read_write_items:
  "read_items (length items) (concat (map write_item items) @ rest) = Some (items, rest)"
  by (induction items) (simp_all add: read_write_item)

lemma write_history_not_a_word:
  "write_history history \<noteq> js ''null''" "write_history history \<noteq> js ''{}''"
  by (cases "length history"; simp add: write_history_def write_nat_def js_def)+

lemma read_write_history: "read_history (write_history history) = Inr (JArray history)"
  using read_write_items [of history "[]"]
  by (simp add: read_history_def write_history_not_a_word)
     (simp add: write_history_def read_write_nat)

lemma write_history_nonempty: "write_history history \<noteq> []"
  by (simp add: write_history_def write_nat_def)

lemma host_roundtrip: "\<forall>h. JSON_parse host (JSON_stringify host h) = Inr (JArray h)"
  by (simp add: host_def read_write_history)

lemma host_nonempty: "\<forall>h. JSON_stringify host h \<noteq> []"
  by (simp add: host_def write_history_nonempty)

lemma js_includes_iff: "js_includes s sub \<longleftrightarrow> (\<exists>p r. s = p @ sub @ r)"
proof (induction s)
  case Nil
  show ?case by auto
next
  case (Cons c cs)
  show ?case
  proof
    assume "js_includes (c # cs) sub"
    then consider "prefix sub (c # cs)" | "js_includes cs sub" by auto
    then show "\<exists>p r. c # cs = p @ sub @ r"
    proof cases
      case 1
      then obtain r where "c # cs = sub @ r" by (auto simp: prefix_def)
      then have "c # cs = [] @ sub @ r" by simp
      then show ?thesis by blast
    next
      case 2
      then obtain p r where "cs = p @ sub @ r" using Cons.IH by blast
      then have "c # cs = (c # p) @ sub @ r" by simp
      then show ?thesis by blast
    qed
  next
    assume "\<exists>p r. c # cs = p @ sub @ r"
    then obtain p r where eq: "c # cs = p @ sub @ r" by blast
    show "js_includes (c # cs) sub"
    proof (cases p)
      case Nil
      with eq have "prefix sub (c # cs)" by (simp add: prefix_def)
      then show ?thesis by simp
    next
      case (Cons a p')
      with eq have "cs = p' @ sub @ r" by simp
      then have "js_includes cs sub" using Cons.IH by blast
      then show ?thesis by simp
    qed
  qed
qed

lemma split_first_whole: "\<not> js_includes s sep \<Longrightarrow> split_first sep s = s"
  by (induction s) auto

lemma split_first_cut: "js_includes s sep \<Longrightarrow> \<exists>rest. s = split_first sep s @ sep @ rest"
proof (induction s)
  case Nil
  then show ?case by simp
next
  case (Cons c cs)
  show ?case
  proof (cases "prefix sep (c # cs)")
    case True
    then show ?thesis by (auto simp: prefix_def)
  next
    case False
    with Cons.prems have "js_includes cs sep" by simp
    then obtain rest where "cs = split_first sep cs @ sep @ rest" using Cons.IH by blast
    with False show ?thesis by auto
  qed
qed

lemma split_first_earliest: "s = p @ sep @ r \<Longrightarrow> length (split_first sep s) \<le> length p"
proof (induction s arbitrary: p)
  case Nil
  then show ?case by simp
next
  case (Cons c cs)
  show ?case
  proof (cases p)
    case Nil
    with Cons.prems have "prefix sep (c # cs)" by (simp add: prefix_def)
    then show ?thesis by simp
  next
    case (Cons a p')
    with Cons.prems have "cs = p' @ sep @ r" by simp
    then have "length (split_first sep cs) \<le> length p'" by (rule Cons.IH)
    with Cons show ?thesis by simp
  qed
qed

lemma split_first_append:
  assumes "\<not> js_includes a sep" and "b \<noteq> []" and "hd b \<notin> set (tl sep)"
  shows "split_first sep (a @ b) = a @ split_first sep b"
  using assms(1)
proof (induction a)
  case Nil
  show ?case by simp
next
  case (Cons x xs)
  have "\<not> prefix sep (x # xs @ b)"
  proof
    assume "prefix sep (x # xs @ b)"
    then have "prefix sep ((x # xs) @ b)" by simp
    then consider "prefix sep (x # xs)" | us where "sep = (x # xs) @ us" "prefix us b"
      unfolding prefix_append by blast
    then show False
    proof cases
      case 1
      with Cons.prems show False by simp
    next
      case 2
      show False
      proof (cases us)
        case Nil
        with 2 have "prefix sep (x # xs)" by simp
        with Cons.prems show False by simp
      next
        case (Cons u us')
        with 2(2) assms(2) have "u = hd b" by (cases b) simp_all
        moreover from 2(1) Cons have "u \<in> set (tl sep)" by simp
        ultimately show False using assms(3) by simp
      qed
    qed
  qed
  moreover from Cons.prems have "\<not> js_includes xs sep" by simp
  ultimately show ?case using Cons.IH by simp
qed

section \<open>The composed prompt\<close>

lemma finalPrompt_unfold:
  "finalPrompt s =
     prompt s @ cameraViewPrompt (cameraView s) @ js '', '' @ qualityKeywords (qualityPreset s)
       @ js '', '' @ commonKeywords
       @ (if trim (negativePrompt s) \<noteq> []
          then js ''. Negative prompt: '' @ trim (negativePrompt s) else [])"
  by (simp add: finalPrompt_def Let_def)

lemma commonKeywords_eq:
  "commonKeywords = js ''photorealistic, film still, movie scene, fit prompt, no distortion, no deformations, no text overlays''"
  by (simp add: commonKeywords_def js_def)

text \<open>
  C3. The composed prompt depends on the prompt, the camera view, the quality preset and the
  negative prompt only: two configurations that agree on these four (whatever their aspect
  ratios and the rest of the page) give the same string. The configuration with prompt
  "a cat", camera view "default", preset "sd" and an empty negative prompt gives exactly
  the string of the specification.
\<close>

theorem finalPrompt_deterministic:
  fixes a :: "'a inputs_scheme" and b :: "'b inputs_scheme"
  shows "(prompt a = prompt b \<and> cameraView a = cameraView b \<and> qualityPreset a = qualityPreset b
            \<and> negativePrompt a = negativePrompt b
          \<longrightarrow> finalPrompt a = finalPrompt b)
       \<and> (prompt a = js ''a cat'' \<and> cameraView a = js ''default'' \<and> qualityPreset a = js ''sd''
            \<and> negativePrompt a = js ''''
          \<longrightarrow> finalPrompt a = js ''a cat, 720p resolution, standard quality, sharp focus, basic detail, photorealistic, film still, movie scene, fit prompt, no distortion, no deformations, no text overlays'')"
proof (intro conjI impI)
  assume "prompt a = prompt b \<and> cameraView a = cameraView b \<and> qualityPreset a = qualityPreset b
            \<and> negativePrompt a = negativePrompt b"
  then show "finalPrompt a = finalPrompt b"
    by (simp add: finalPrompt_unfold)
next
  assume ex: "prompt a = js ''a cat'' \<and> cameraView a = js ''default'' \<and> qualityPreset a = js ''sd''
            \<and> negativePrompt a = js ''''"
  have "trim (negativePrompt a) = []"
    using ex by (simp add: js_def trim_Nil)
  moreover have "cameraViewPrompt (cameraView a) = []"
    using ex by (simp add: cameraViewPrompt_def)
  moreover have "qualityKeywords (qualityPreset a)
                   = js ''720p resolution, standard quality, sharp focus, basic detail''"
    using ex by (simp add: qualityKeywords_def)
  ultimately show "finalPrompt a = js ''a cat, 720p resolution, standard quality, sharp focus, basic detail, photorealistic, film still, movie scene, fit prompt, no distortion, no deformations, no text overlays''"
    using ex by (simp add: finalPrompt_unfold commonKeywords_eq) (simp add: js_def)
qed

theorem finalPrompt_deterministic_witness:
  "finalPrompt \<lparr>prompt = js ''a cat'', negativePrompt = js '''', aspectRatio = js ''16:9'',
                 qualityPreset = js ''sd'', cameraView = js ''default''\<rparr>
     = finalPrompt \<lparr>prompt = js ''a cat'', negativePrompt = js '''', aspectRatio = js ''1:1'',
                     qualityPreset = js ''sd'', cameraView = js ''default''\<rparr>
   \<and> finalPrompt \<lparr>prompt = js ''a cat'', negativePrompt = js '''', aspectRatio = js ''16:9'',
                   qualityPreset = js ''sd'', cameraView = js ''default''\<rparr>
     = js ''a cat, 720p resolution, standard quality, sharp focus, basic detail, photorealistic, film still, movie scene, fit prompt, no distortion, no deformations, no text overlays''"
proof -
  note both = finalPrompt_deterministic
          [of "\<lparr>prompt = js ''a cat'', negativePrompt = js '''', aspectRatio = js ''16:9'',
                 qualityPreset = js ''sd'', cameraView = js ''default''\<rparr>"
              "\<lparr>prompt = js ''a cat'', negativePrompt = js '''', aspectRatio = js ''1:1'',
                 qualityPreset = js ''sd'', cameraView = js ''default''\<rparr>"]
  show ?thesis
    by (rule conjI) (use both [THEN conjunct1] in simp, use both [THEN conjunct2] in simp)
qed

text \<open>
  C7. With a camera view other than "default", the composed prompt is the prompt, then
  ", Shot from a ", the camera view with every hyphen (code unit 0x2D) turned into a space
  (0x20), " perspective", and then ", ", the quality keywords and the rest. With the camera
  view "default" the quality keywords follow the prompt at once.
\<close>

theorem cameraView_clause:
  fixes s :: "'a inputs_scheme"
  shows "(cameraView s \<noteq> js ''default'' \<longrightarrow>
            finalPrompt s
              = prompt s @ js '', Shot from a ''
                  @ map (\<lambda>c. if c = 0x002D then 0x0020 else c) (cameraView s)
                  @ js '' perspective'' @ js '', '' @ qualityKeywords (qualityPreset s)
                  @ js '', '' @ commonKeywords
                  @ (if trim (negativePrompt s) = [] then []
                     else js ''. Negative prompt: '' @ trim (negativePrompt s)))
       \<and> (cameraView s = js ''default'' \<longrightarrow>
            finalPrompt s
              = prompt s @ js '', '' @ qualityKeywords (qualityPreset s)
                  @ js '', '' @ commonKeywords
                  @ (if trim (negativePrompt s) = [] then []
                     else js ''. Negative prompt: '' @ trim (negativePrompt s)))"
  by (simp add: finalPrompt_unfold cameraViewPrompt_def replace_hyphens_def)

theorem cameraView_clause_witness:
  "js ''low-angle'' \<noteq> js ''default''
   \<and> finalPrompt \<lparr>prompt = js ''a cat'', negativePrompt = js '''', aspectRatio = js ''16:9'',
                   qualityPreset = js ''sd'', cameraView = js ''low-angle''\<rparr>
       = js ''a cat, Shot from a low angle perspective, 720p resolution, standard quality, sharp focus, basic detail, photorealistic, film still, movie scene, fit prompt, no distortion, no deformations, no text overlays''"
proof -
  have view: "js ''low-angle'' \<noteq> js ''default''"
    by (simp add: js_def)
  then have "cameraView \<lparr>prompt = js ''a cat'', negativePrompt = js '''', aspectRatio = js ''16:9'',
                          qualityPreset = js ''sd'', cameraView = js ''low-angle''\<rparr>
               \<noteq> js ''default''"
    by simp
  from cameraView_clause [THEN conjunct1, rule_format, OF this]
  have "finalPrompt \<lparr>prompt = js ''a cat'', negativePrompt = js '''', aspectRatio = js ''16:9'',
                   qualityPreset = js ''sd'', cameraView = js ''low-angle''\<rparr>
       = js ''a cat, Shot from a low angle perspective, 720p resolution, standard quality, sharp focus, basic detail, photorealistic, film still, movie scene, fit prompt, no distortion, no deformations, no text overlays''"
    by (simp add: qualityKeywords_def commonKeywords_eq trim_Nil js_def)
  with view show ?thesis by simp
qed

text \<open>
  C8. When the negative prompt trims to a non-empty string, the composed prompt is the one
  composed without a negative prompt, followed by ". Negative prompt: " and the trimmed
  negative prompt. When it trims to the empty string, nothing is appended.
\<close>

theorem negativePrompt_suffix:
  fixes s :: "'a inputs_scheme"
  shows "(trim (negativePrompt s) \<noteq> [] \<longrightarrow>
            finalPrompt s = finalPrompt (s\<lparr>negativePrompt := []\<rparr>)
                              @ js ''. Negative prompt: '' @ trim (negativePrompt s))
       \<and> (trim (negativePrompt s) = [] \<longrightarrow> finalPrompt s = finalPrompt (s\<lparr>negativePrompt := []\<rparr>))"
  by (simp add: finalPrompt_unfold trim_Nil)

theorem negativePrompt_suffix_witness:
  "trim (js '' blurry '') \<noteq> []
   \<and> finalPrompt \<lparr>prompt = js ''a cat'', negativePrompt = js '' blurry '', aspectRatio = js ''16:9'',
                   qualityPreset = js ''sd'', cameraView = js ''default''\<rparr>
     = finalPrompt \<lparr>prompt = js ''a cat'', negativePrompt = [], aspectRatio = js ''16:9'',
                     qualityPreset = js ''sd'', cameraView = js ''default''\<rparr>
       @ js ''. Negative prompt: blurry''"
proof -
  have t: "trim (js '' blurry '') = js ''blurry''"
    by (simp add: trim_def js_def WhiteSpace_def LineTerminator_def)
  show ?thesis
    using negativePrompt_suffix
          [of "\<lparr>prompt = js ''a cat'', negativePrompt = js '' blurry '', aspectRatio = js ''16:9'',
                 qualityPreset = js ''sd'', cameraView = js ''default''\<rparr>"]
    by (simp add: t) (simp add: js_def)
qed

section \<open>The history store\<close>

lemma getHistory_saved:
  assumes "JSON_parse pf (JSON_stringify pf h) = Inr (JArray h)" and "JSON_stringify pf h \<noteq> []"
  shows "getHistory pf (store(HISTORY_KEY \<mapsto> JSON_stringify pf h)) = Inr (JArray h)"
  using assms by (simp add: getHistory_def)

lemma addToHistory_loaded:
  assumes roundtrip: "\<forall>h. JSON_parse pf (JSON_stringify pf h) = Inr (JArray h)"
      and nonempty: "\<forall>h. JSON_stringify pf h \<noteq> []"
      and loaded: "getHistory pf store = Inr (JArray h)"
  shows "\<exists>store'. addToHistory pf None item store = Inr store'
                 \<and> getHistory pf store' = Inr (JArray (take MAX_HISTORY_ITEMS (item # h)))"
proof -
  let ?kept = "take MAX_HISTORY_ITEMS (item # h)"
  have "addToHistory pf None item store = Inr (store(HISTORY_KEY \<mapsto> JSON_stringify pf ?kept))"
    using loaded by (simp add: addToHistory_def saveHistory_def Let_def)
  moreover have "getHistory pf (store(HISTORY_KEY \<mapsto> JSON_stringify pf ?kept))
                   = Inr (JArray ?kept)"
    using roundtrip nonempty by (intro getHistory_saved) simp_all
  ultimately show ?thesis by blast
qed

lemma addAllToHistory_loaded:
  assumes roundtrip: "\<forall>h. JSON_parse pf (JSON_stringify pf h) = Inr (JArray h)"
      and nonempty: "\<forall>h. JSON_stringify pf h \<noteq> []"
  shows "getHistory pf store = Inr (JArray h) \<Longrightarrow> length h \<le> MAX_HISTORY_ITEMS \<Longrightarrow>
         \<exists>store'. addAllToHistory pf items store = Inr store'
                 \<and> getHistory pf store' = Inr (JArray (take MAX_HISTORY_ITEMS (rev items @ h)))"
proof (induction items arbitrary: store h)
  case Nil
  then show ?case by simp
next
  case (Cons item items)
  obtain store1 where
    s1: "addToHistory pf None item store = Inr store1"
        "getHistory pf store1 = Inr (JArray (take MAX_HISTORY_ITEMS (item # h)))"
    using addToHistory_loaded [OF roundtrip nonempty Cons.prems(1)] by blast
  obtain store' where
    s2: "addAllToHistory pf items store1 = Inr store'"
        "getHistory pf store' =
           Inr (JArray (take MAX_HISTORY_ITEMS (rev items @ take MAX_HISTORY_ITEMS (item # h))))"
    using Cons.IH [OF s1(2)] by auto
  have "take MAX_HISTORY_ITEMS (rev items @ take MAX_HISTORY_ITEMS (item # h))
          = take MAX_HISTORY_ITEMS (rev (item # items) @ h)"
    by (simp add: min_def)
  with s1 s2 show ?case by simp
qed

text \<open>
  C1. On a host whose \<^verbatim>\<open>JSON.parse\<close> gives back every history that \<^verbatim>\<open>JSON.stringify\<close> wrote
  (and whose \<^verbatim>\<open>JSON.stringify\<close> never writes the empty string), appending the items of a
  list, oldest first, to an empty history succeeds, and the stored history is then the
  last 30 of them, newest first: it has \<open>min N 30\<close> entries. Appending to a stored history
  of exactly 30 entries stores the new item followed by the first 29 of them: only the
  oldest one is dropped.
\<close>

theorem history_bounded_newest_first:
  assumes roundtrip: "\<forall>h. JSON_parse pf (JSON_stringify pf h) = Inr (JArray h)"
      and nonempty: "\<forall>h. JSON_stringify pf h \<noteq> []"
  shows "(getHistory pf store = Inr (JArray []) \<longrightarrow>
            (\<exists>store'. addAllToHistory pf items store = Inr store'
                     \<and> getHistory pf store' = Inr (JArray (take 30 (rev items)))
                     \<and> length (take 30 (rev items)) = min (length items) 30))
       \<and> (getHistory pf store = Inr (JArray h) \<and> length h = 30 \<longrightarrow>
            (\<exists>store'. addToHistory pf None item store = Inr store'
                     \<and> getHistory pf store' = Inr (JArray (item # butlast h))))"
proof (intro conjI impI)
  assume "getHistory pf store = Inr (JArray [])"
  from addAllToHistory_loaded [OF roundtrip nonempty this, of items]
  show "\<exists>store'. addAllToHistory pf items store = Inr store'
                     \<and> getHistory pf store' = Inr (JArray (take 30 (rev items)))
                     \<and> length (take 30 (rev items)) = min (length items) 30"
    by (auto simp: MAX_HISTORY_ITEMS_def)
next
  assume full: "getHistory pf store = Inr (JArray h) \<and> length h = 30"
  then have "take MAX_HISTORY_ITEMS (item # h) = item # butlast h"
    by (simp add: MAX_HISTORY_ITEMS_def butlast_conv_take)
  with addToHistory_loaded [OF roundtrip nonempty, of store h item] full
  show "\<exists>store'. addToHistory pf None item store = Inr store'
                     \<and> getHistory pf store' = Inr (JArray (item # butlast h))"
    by simp
qed

theorem history_bounded_newest_first_witness:
  "(\<exists>store'. addAllToHistory host (map sample_item [0..<31]) Map.empty = Inr store'
             \<and> getHistory host store' = Inr (JArray (map sample_item (rev [1..<31])))
             \<and> length (map sample_item (rev [1..<31])) = 30)
   \<and> (\<exists>store'. addToHistory host None (sample_item 30)
                  [HISTORY_KEY \<mapsto> write_history (map sample_item (rev [0..<30]))] = Inr store'
             \<and> getHistory host store'
                 = Inr (JArray (sample_item 30 # map sample_item (rev [1..<30]))))"
proof -
  have full: "getHistory host [HISTORY_KEY \<mapsto> write_history (map sample_item (rev [0..<30]))]
                = Inr (JArray (map sample_item (rev [0..<30])))"
    using getHistory_saved [of host "map sample_item (rev [0..<30])" Map.empty]
          host_roundtrip host_nonempty
    by (simp add: host_def)
  have t: "take 30 (rev (map sample_item [0..<31])) = map sample_item (rev [1..<31])"
  proof -
    have "take 30 (rev [0..<31]) = rev [1..<31::nat]"
      by (simp add: take_rev)
    then show ?thesis
      by (simp add: take_map rev_map)
  qed
  have b: "butlast (map sample_item (rev [0..<30])) = map sample_item (rev [1..<30])"
  proof -
    have "butlast (rev [0..<30::nat]) = rev [1..<30]"
      by (simp add: butlast_rev tl_upt)
    then show ?thesis
      by (simp add: map_butlast [symmetric])
  qed
  have empty: "getHistory host Map.empty = Inr (JArray [])"
    by (simp add: getHistory_def)
  note first = history_bounded_newest_first [OF host_roundtrip host_nonempty,
        of Map.empty "map sample_item [0..<31]", THEN conjunct1, rule_format, OF empty]
  note second = history_bounded_newest_first [OF host_roundtrip host_nonempty,
        of "[HISTORY_KEY \<mapsto> write_history (map sample_item (rev [0..<30]))]"
           "map sample_item [0..<31]" "map sample_item (rev [0..<30])" "sample_item 30",
        THEN conjunct2]
  show ?thesis
  proof (rule conjI)
    show "\<exists>store'. addAllToHistory host (map sample_item [0..<31]) Map.empty = Inr store'
             \<and> getHistory host store' = Inr (JArray (map sample_item (rev [1..<31])))
             \<and> length (map sample_item (rev [1..<31])) = 30"
      using first by (simp add: t)
    show "\<exists>store'. addToHistory host None (sample_item 30)
                  [HISTORY_KEY \<mapsto> write_history (map sample_item (rev [0..<30]))] = Inr store'
             \<and> getHistory host store'
                 = Inr (JArray (sample_item 30 # map sample_item (rev [1..<30])))"
      using second full by (simp add: b)
  qed
qed

text \<open>
  C2 (amended). \<^verbatim>\<open>getHistory\<close> never throws. When the text stored under the history key is
  one that \<^verbatim>\<open>JSON.parse\<close> throws on, it returns the empty array, as it does when there is no
  entry or the entry is the empty string. Any other stored text is returned as
  \<^verbatim>\<open>JSON.parse\<close> reads it, whether that is an array or not.
\<close>

theorem getHistory_corrupt:
  "(\<forall>e. getHistory pf store \<noteq> Inl e)
   \<and> (store HISTORY_KEY = Some blob \<and> JSON_parse pf blob = Inl e
        \<longrightarrow> getHistory pf store = Inr (JArray []))
   \<and> (store HISTORY_KEY = None \<or> store HISTORY_KEY = Some []
        \<longrightarrow> getHistory pf store = Inr (JArray []))
   \<and> (store HISTORY_KEY = Some blob \<and> blob \<noteq> [] \<and> JSON_parse pf blob = Inr v
        \<longrightarrow> getHistory pf store = Inr v)"
  by (auto simp: getHistory_def split: option.splits sum.splits)

theorem getHistory_corrupt_witness:
  "[HISTORY_KEY \<mapsto> js ''{not json''] HISTORY_KEY = Some (js ''{not json'')
   \<and> JSON_parse host (js ''{not json'') = Inl (ErrorObject (js ''Unexpected token''))
   \<and> getHistory host [HISTORY_KEY \<mapsto> js ''{not json''] = Inr (JArray [])
   \<and> js ''{}'' \<noteq> []
   \<and> JSON_parse host (js ''{}'') = Inr (JOther False)
   \<and> getHistory host [HISTORY_KEY \<mapsto> js ''{}''] = Inr (JOther False)"
proof -
  have p: "JSON_parse host (js ''{not json'') = Inl (ErrorObject (js ''Unexpected token''))"
    by (simp add: host_def read_history_def js_def)
  have q: "JSON_parse host (js ''{}'') = Inr (JOther False)" "js ''{}'' \<noteq> []"
    by (simp_all add: host_def read_history_def js_def)
  have "getHistory host [HISTORY_KEY \<mapsto> js ''{not json''] = Inr (JArray [])"
    using getHistory_corrupt [of host "[HISTORY_KEY \<mapsto> js ''{not json'']" "js ''{not json''"
                                 "ErrorObject (js ''Unexpected token'')"] p
    by simp
  moreover have "getHistory host [HISTORY_KEY \<mapsto> js ''{}''] = Inr (JOther False)"
    using getHistory_corrupt [of host "[HISTORY_KEY \<mapsto> js ''{}'']" "js ''{}''" _ "JOther False"] q
    by simp
  ultimately show ?thesis using p q by simp
qed

text \<open>
  C2 as stated fails on a stored text that is JSON but not a history: for the text
  \<^verbatim>\<open>null\<close>, \<^verbatim>\<open>getHistory\<close> returns \<^verbatim>\<open>null\<close>, not an empty sequence, and \<^verbatim>\<open>renderHistory\<close>
  then throws a \<^verbatim>\<open>TypeError\<close> when it reads its length.
\<close>

theorem getHistory_corrupt_counterexample:
  "getHistory host [HISTORY_KEY \<mapsto> js ''null''] = Inr JNull
   \<and> getHistory host [HISTORY_KEY \<mapsto> js ''null''] \<noteq> Inr (JArray [])
   \<and> renderHistory host (loaded\<lparr>localStorage := [HISTORY_KEY \<mapsto> js ''null'']\<rparr>)
       = Inl (ErrorObject (js ''Cannot read properties of null (reading '' @ [0x0027]
                             @ js ''length'' @ [0x0027] @ js '')''),
              loaded\<lparr>localStorage := [HISTORY_KEY \<mapsto> js ''null'']\<rparr>)"
proof -
  have g: "getHistory host [HISTORY_KEY \<mapsto> js ''null''] = Inr JNull"
    by (simp add: getHistory_def host_def read_history_def) (simp add: js_def)
  then have "renderHistory host (loaded\<lparr>localStorage := [HISTORY_KEY \<mapsto> js ''null'']\<rparr>)
       = Inl (ErrorObject (js ''Cannot read properties of null (reading '' @ [0x0027]
                             @ js ''length'' @ [0x0027] @ js '')''),
              loaded\<lparr>localStorage := [HISTORY_KEY \<mapsto> js ''null'']\<rparr>)"
    by (simp add: renderHistory_def) (simp add: host_def type_error_text_def)
  with g show ?thesis by simp
qed

section \<open>A request from the click to the history\<close>

text \<open>
  The program run on the concrete host: typing "a cat" and clicking the generate button
  sends one request and disables the controls; the answer, one image, shows the image,
  stores a history of one item and enables the controls again.
\<close>

lemmas model_defs =
  loaded_def host_def generateButton_click_def trim_def WhiteSpace_def LineTerminator_def
  generate_def Let_def setControlsDisabled_def suspend_def resume_def generate_resume_def
  generate_try_def generateImage_resume_def addToHistory_def getHistory_def saveHistory_def
  renderHistory_def read_write_history write_history_nonempty MAX_HISTORY_ITEMS_def
  generateImage_request_def finalPrompt_def

lemma request_started:
  "run host [PromptInput (js ''a cat''), GenerateClick] loaded
   = loaded\<lparr>prompt := js ''a cat'', promptEl_value := js ''a cat'',
       statusEl := InnerText (js ''Generating image...''),
       generateButton_disabled := True, promptEl_disabled := True,
       negativePromptEl_disabled := True, aspectRatioSelect_disabled := True,
       qualityPresetSelect_disabled := True, cameraViewSelect_disabled := True,
       generateImages_calls :=
         [\<lparr>req_apiKey = js ''key'', req_model = js ''imagen-4.0-generate-001'',
           req_prompt = finalPrompt (loaded\<lparr>prompt := js ''a cat''\<rparr>),
           req_aspectRatio = Some (js ''16:9'')\<rparr>],
       suspended := [AwaitGenerateImages (finalPrompt (loaded\<lparr>prompt := js ''a cat''\<rparr>))]\<rparr>"
  by (simp add: model_defs js_def)

lemma request_answered:
  "step host (Settled 0 (ApiSettled (Response (Some [js ''AAAA'']))
                          \<lparr>randomUUID = js ''id'', Date_now = 5, setItem_throws = None\<rparr>))
     (run host [PromptInput (js ''a cat''), GenerateClick] loaded)
   = loaded\<lparr>prompt := js ''a cat'', promptEl_value := js ''a cat'',
       statusEl := InnerText (js ''Image generated successfully.''),
       outputImage_src := js ''data:image/jpeg;base64,AAAA'',
       outputImage_display := js ''block'',
       downloadButton_disabled := False,
       historyContainer_hidden := False,
       historyGrid :=
         [\<lparr>item_id = js ''id'', item_prompt = finalPrompt (loaded\<lparr>prompt := js ''a cat''\<rparr>),
           imageUrl = js ''data:image/jpeg;base64,AAAA'', timestamp = 5\<rparr>],
       localStorage :=
         [HISTORY_KEY \<mapsto> write_history
            [\<lparr>item_id = js ''id'', item_prompt = finalPrompt (loaded\<lparr>prompt := js ''a cat''\<rparr>),
              imageUrl = js ''data:image/jpeg;base64,AAAA'', timestamp = 5\<rparr>]],
       generateImages_calls :=
         [\<lparr>req_apiKey = js ''key'', req_model = js ''imagen-4.0-generate-001'',
           req_prompt = finalPrompt (loaded\<lparr>prompt := js ''a cat''\<rparr>),
           req_aspectRatio = Some (js ''16:9'')\<rparr>]\<rparr>"
  unfolding request_started
  by (simp add: model_defs) (simp add: js_def)

text \<open>
  The same request on a page whose storage holds the text \<^verbatim>\<open>{}\<close> under the history key:
  the image is shown, then \<^verbatim>\<open>addToHistory\<close> throws the \<^verbatim>\<open>TypeError\<close> of \<^verbatim>\<open>unshift\<close>, which
  the \<^verbatim>\<open>catch\<close> block reports; the storage keeps its text and the controls are enabled.
\<close>

lemma request_answered_foreign_storage:
  "generate_resume host fp (Response (Some [js ''AAAA'']))
     \<lparr>randomUUID = js ''id'', Date_now = 5, setItem_throws = None\<rparr>
     (setControlsDisabled True (loaded\<lparr>localStorage := [HISTORY_KEY \<mapsto> js ''{}'']\<rparr>))
   = (loaded\<lparr>localStorage := [HISTORY_KEY \<mapsto> js ''{}''],
              outputImage_src := js ''data:image/jpeg;base64,AAAA'',
              outputImage_display := js ''block'',
              downloadButton_disabled := False,
              statusEl := InnerHTML (js ''<span class='' @ [0x0022] @ js ''text-red-400''
                @ [0x0022] @ js ''>Error: history.unshift is not a function</span>'')\<rparr>, None)"
proof -
  have stored: "getHistory host [HISTORY_KEY \<mapsto> js ''{}''] = Inr (JOther False)"
    by (simp add: getHistory_def host_def read_history_def) (simp add: js_def)
  have message: "TypeError_message host (JOther False) (js ''unshift'')
                   = js ''history.unshift is not a function''"
    by (simp add: host_def type_error_text_def js_def)
  have unrelated:
    "classify host (js ''history.unshift is not a function'')
       = (js ''Error: history.unshift is not a function'', False)"
    by (simp add: classify_def host_def lower_ascii_def js_def)
  show ?thesis
    by (simp add: generate_resume_def generate_try_def generateImage_resume_def Let_def
                  addToHistory_def stored message generate_catch_def unrelated
                  showStatusError_def setControlsDisabled_def loaded_def)
       (simp add: js_def)
qed

section \<open>Submitting\<close>

text \<open>
  C6. When the prompt trims to the empty string, the click listener of the generate button
  only replaces the status by the message asking for a prompt: \<^verbatim>\<open>generate\<close> is not
  called, so no request goes to the image model, the storage is untouched, no call is left
  suspended, and the disabled flags of the controls are what they were.
\<close>

theorem blank_prompt_rejected:
  assumes "trim (prompt s) = []"
  shows "generateButton_click pf s
           = (s\<lparr>statusEl := InnerHTML (js ''<span class='' @ [0x0022] @ js ''text-red-400'' @ [0x0022]
                    @ js ''>Please enter a prompt to generate an image.</span>'')\<rparr>, None)
       \<and> step pf GenerateClick s
           = (if generateButton_disabled s then s
              else s\<lparr>statusEl := InnerHTML (js ''<span class='' @ [0x0022] @ js ''text-red-400''
                         @ [0x0022] @ js ''>Please enter a prompt to generate an image.</span>'')\<rparr>)
       \<and> generateImages_calls (step pf GenerateClick s) = generateImages_calls s
       \<and> localStorage (step pf GenerateClick s) = localStorage s
       \<and> suspended (step pf GenerateClick s) = suspended s
       \<and> generateButton_disabled (step pf GenerateClick s) = generateButton_disabled s
       \<and> promptEl_disabled (step pf GenerateClick s) = promptEl_disabled s
       \<and> negativePromptEl_disabled (step pf GenerateClick s) = negativePromptEl_disabled s
       \<and> aspectRatioSelect_disabled (step pf GenerateClick s) = aspectRatioSelect_disabled s
       \<and> qualityPresetSelect_disabled (step pf GenerateClick s) = qualityPresetSelect_disabled s
       \<and> cameraViewSelect_disabled (step pf GenerateClick s) = cameraViewSelect_disabled s"
proof -
  have click: "generateButton_click pf s
           = (s\<lparr>statusEl := InnerHTML (js ''<span class='' @ [0x0022] @ js ''text-red-400'' @ [0x0022]
                    @ js ''>Please enter a prompt to generate an image.</span>'')\<rparr>, None)"
    using assms by (simp add: generateButton_click_def showStatusError_def js_def)
  then have event: "step pf GenerateClick s
           = (if generateButton_disabled s then s
              else s\<lparr>statusEl := InnerHTML (js ''<span class='' @ [0x0022] @ js ''text-red-400''
                         @ [0x0022] @ js ''>Please enter a prompt to generate an image.</span>'')\<rparr>)"
    by (simp add: suspend_def)
  show ?thesis
    unfolding event using click by simp
qed

theorem blank_prompt_rejected_witness:
  "trim (prompt (loaded\<lparr>prompt := js ''   ''\<rparr>)) = []
   \<and> step host GenerateClick (loaded\<lparr>prompt := js ''   ''\<rparr>)
       = loaded\<lparr>prompt := js ''   '',
                statusEl := InnerHTML (js ''<span class='' @ [0x0022] @ js ''text-red-400''
                         @ [0x0022] @ js ''>Please enter a prompt to generate an image.</span>'')\<rparr>
   \<and> generateImages_calls (step host GenerateClick (loaded\<lparr>prompt := js ''   ''\<rparr>)) = []"
proof -
  have blank: "trim (prompt (loaded\<lparr>prompt := js ''   ''\<rparr>)) = []"
    by (simp add: trim_def js_def WhiteSpace_def)
  have enabled: "\<not> generateButton_disabled (loaded\<lparr>prompt := js ''   ''\<rparr>)"
    by (simp add: loaded_def)
  have calls: "generateImages_calls (loaded\<lparr>prompt := js ''   ''\<rparr>) = []"
    by (simp add: loaded_def)
  show ?thesis
    using blank_prompt_rejected [OF blank, of host] blank enabled calls
    by (simp del: step.simps)
qed

section \<open>Failures\<close>

lemma classify_not_found:
  "js_includes msg (js ''Requested entity was not found.'') \<Longrightarrow>
   classify pf msg = (js ''Model not found. This can be caused by an invalid API key or permission issues. Please check your API key.'', True)"
  by (simp add: classify_def)

lemma classify_invalid_key:
  "\<not> js_includes msg (js ''Requested entity was not found.'') \<Longrightarrow>
   js_includes msg (js ''API_KEY_INVALID'') \<or> js_includes msg (js ''API key not valid'')
     \<or> js_includes (toLowerCase pf msg) (js ''permission denied'') \<Longrightarrow>
   classify pf msg = (js ''Your API key is invalid. Please add a valid API key.'', True)"
  by (simp add: classify_def)

lemma classify_other:
  "\<not> js_includes msg (js ''Requested entity was not found.'') \<Longrightarrow>
   \<not> js_includes msg (js ''API_KEY_INVALID'') \<Longrightarrow>
   \<not> js_includes msg (js ''API key not valid'') \<Longrightarrow>
   \<not> js_includes (toLowerCase pf msg) (js ''permission denied'') \<Longrightarrow>
   classify pf msg = (js ''Error: '' @ msg, False)"
  by (simp add: classify_def)

lemma generate_catch_ErrorObject:
  "generate_catch pf (ErrorObject msg) s =
     (if snd (classify pf msg) then openApiKeyDialog pf (showStatusError (fst (classify pf msg)) s)
      else (showStatusError (fst (classify pf msg)) s, False))"
  by (simp add: generate_catch_def Let_def split: prod.splits)

lemma invalid_key_message_1:
  "js_includes (js ''400 API_KEY_INVALID'') (js ''API_KEY_INVALID'')"
  by (simp add: js_def)

lemma invalid_key_message_2:
  "\<not> js_includes (js ''400 API_KEY_INVALID'') (js ''Requested entity was not found.'')"
  by (simp add: js_def)

lemma unrelated_message:
  "\<not> js_includes (js ''fetch failed'') (js ''Requested entity was not found.'')"
  "\<not> js_includes (js ''fetch failed'') (js ''API_KEY_INVALID'')"
  "\<not> js_includes (js ''fetch failed'') (js ''API key not valid'')"
  "\<not> js_includes (toLowerCase host (js ''fetch failed'')) (js ''permission denied'')"
  by (simp_all add: js_def host_def lower_ascii_def)

text \<open>
  C4 (amended). For an error thrown in the \<^verbatim>\<open>try\<close> block: if its message contains
  "API_KEY_INVALID" and does not contain "Requested entity was not found.", the \<^verbatim>\<open>catch\<close>
  block shows the invalid-key message and then calls \<^verbatim>\<open>openApiKeyDialog\<close> once; on a host
  that provides the key dialog this opens it exactly once and leaves the invalid-key message
  on display. If the message contains none of the four signatures, "Error: " followed by
  the message is shown and the key dialog is not opened.
\<close>

theorem error_classification:
  "(js_includes msg (js ''API_KEY_INVALID'')
      \<and> \<not> js_includes msg (js ''Requested entity was not found.'') \<longrightarrow>
      generate_catch pf (ErrorObject msg) s
        = openApiKeyDialog pf
            (showStatusError (js ''Your API key is invalid. Please add a valid API key.'') s)
      \<and> (openSelectKey_defined pf \<longrightarrow>
           generate_catch pf (ErrorObject msg) s
             = ((showStatusError (js ''Your API key is invalid. Please add a valid API key.'') s)
                  \<lparr>openSelectKey_calls := Suc (openSelectKey_calls s)\<rparr>, True)))
   \<and> (\<not> js_includes msg (js ''Requested entity was not found.'')
      \<and> \<not> js_includes msg (js ''API_KEY_INVALID'')
      \<and> \<not> js_includes msg (js ''API key not valid'')
      \<and> \<not> js_includes (toLowerCase pf msg) (js ''permission denied'') \<longrightarrow>
      generate_catch pf (ErrorObject msg) s = (showStatusError (js ''Error: '' @ msg) s, False)
      \<and> openSelectKey_calls (fst (generate_catch pf (ErrorObject msg) s)) = openSelectKey_calls s)"
  by (auto simp: generate_catch_ErrorObject classify_invalid_key classify_other
                 openApiKeyDialog_def showStatusError_def)

theorem error_classification_witness:
  "js_includes (js ''400 API_KEY_INVALID'') (js ''API_KEY_INVALID'')
   \<and> \<not> js_includes (js ''400 API_KEY_INVALID'') (js ''Requested entity was not found.'')
   \<and> openSelectKey_defined host
   \<and> generate_catch host (ErrorObject (js ''400 API_KEY_INVALID'')) loaded
       = ((showStatusError (js ''Your API key is invalid. Please add a valid API key.'') loaded)
            \<lparr>openSelectKey_calls := Suc (openSelectKey_calls loaded)\<rparr>, True)
   \<and> \<not> js_includes (js ''fetch failed'') (js ''Requested entity was not found.'')
   \<and> \<not> js_includes (js ''fetch failed'') (js ''API_KEY_INVALID'')
   \<and> \<not> js_includes (js ''fetch failed'') (js ''API key not valid'')
   \<and> \<not> js_includes (toLowerCase host (js ''fetch failed'')) (js ''permission denied'')
   \<and> generate_catch host (ErrorObject (js ''fetch failed'')) loaded
       = (showStatusError (js ''Error: '' @ js ''fetch failed'') loaded, False)"
proof -
  have defined: "openSelectKey_defined host"
    by (simp add: host_def)
  note invalid = error_classification [of "js ''400 API_KEY_INVALID''" host loaded,
                   THEN conjunct1, rule_format,
                   OF conjI [OF invalid_key_message_1 invalid_key_message_2],
                   THEN conjunct2, rule_format, OF defined]
  note other = error_classification [of "js ''fetch failed''" host loaded,
                   THEN conjunct2, rule_format,
                   OF conjI [OF unrelated_message(1) conjI [OF unrelated_message(2)
                               conjI [OF unrelated_message(3) unrelated_message(4)]]],
                   THEN conjunct1]
  show ?thesis
    using invalid_key_message_1 invalid_key_message_2 unrelated_message defined invalid other
    by blast
qed

text \<open>
  C4 as stated fails on a message that contains both "API_KEY_INVALID" and "Requested
  entity was not found.": the first branch of the classification wins, and the user is
  shown the model-not-found message.
\<close>

theorem error_classification_counterexample:
  "js_includes (js ''Requested entity was not found. API_KEY_INVALID'') (js ''API_KEY_INVALID'')
   \<and> generate_catch host (ErrorObject (js ''Requested entity was not found. API_KEY_INVALID'')) loaded
       = ((showStatusError (js ''Model not found. This can be caused by an invalid API key or permission issues. Please check your API key.'') loaded)
            \<lparr>openSelectKey_calls := 1\<rparr>, True)
   \<and> statusEl (fst (generate_catch host
                      (ErrorObject (js ''Requested entity was not found. API_KEY_INVALID'')) loaded))
       \<noteq> statusEl (showStatusError (js ''Your API key is invalid. Please add a valid API key.'') loaded)"
proof -
  have a: "js_includes (js ''Requested entity was not found. API_KEY_INVALID'') (js ''API_KEY_INVALID'')"
    by (simp add: js_def)
  have b: "js_includes (js ''Requested entity was not found. API_KEY_INVALID'')
             (js ''Requested entity was not found.'')"
    by (simp add: js_def)
  have c: "generate_catch host (ErrorObject (js ''Requested entity was not found. API_KEY_INVALID'')) loaded
       = ((showStatusError (js ''Model not found. This can be caused by an invalid API key or permission issues. Please check your API key.'') loaded)
            \<lparr>openSelectKey_calls := 1\<rparr>, True)"
    by (simp add: generate_catch_ErrorObject classify_not_found [OF b] openApiKeyDialog_def)
       (simp add: host_def loaded_def showStatusError_def)
  have d: "statusEl (showStatusError (js ''Model not found. This can be caused by an invalid API key or permission issues. Please check your API key.'') loaded)
       \<noteq> statusEl (showStatusError (js ''Your API key is invalid. Please add a valid API key.'') loaded)"
    by (simp add: showStatusError_def js_def)
  show ?thesis
    using a d unfolding c by simp
qed

section \<open>Leaving a request\<close>

lemma setControlsDisabled_enabled: "controls_enabled (setControlsDisabled False s)"
  by (simp add: controls_enabled_def setControlsDisabled_def)

lemma renderHistory_keeps:
  assumes "renderHistory pf s = Inr s' \<or> renderHistory pf s = Inl (e, s')"
  shows "suspended s' = suspended s"
    and "generateButton_disabled s' = generateButton_disabled s"
    and "openSelectKey_calls s' = openSelectKey_calls s"
    and "statusEl s' = statusEl s"
  using assms
  by (auto simp: renderHistory_def Let_def split: sum.splits parsed.splits if_splits)

lemma generate_try_keeps:
  assumes "generate_try pf fp r io s = Inr s' \<or> generate_try pf fp r io s = Inl (e, s')"
  shows "suspended s' = suspended s"
    and "generateButton_disabled s' = generateButton_disabled s"
    and "openSelectKey_calls s' = openSelectKey_calls s"
proof -
  show "suspended s' = suspended s"
    using assms
    by (auto simp: generate_try_def generateImage_resume_def Let_def
             dest!: renderHistory_keeps(1) [OF disjI1] renderHistory_keeps(1) [OF disjI2]
             split: sum.splits api_result.splits option.splits list.splits)
  show "generateButton_disabled s' = generateButton_disabled s"
    using assms
    by (auto simp: generate_try_def generateImage_resume_def Let_def
             dest!: renderHistory_keeps(2) [OF disjI1] renderHistory_keeps(2) [OF disjI2]
             split: sum.splits api_result.splits option.splits list.splits)
  show "openSelectKey_calls s' = openSelectKey_calls s"
    using assms
    by (auto simp: generate_try_def generateImage_resume_def Let_def
             dest!: renderHistory_keeps(3) [OF disjI1] renderHistory_keeps(3) [OF disjI2]
             split: sum.splits api_result.splits option.splits list.splits)
qed

lemma generate_catch_keeps:
  assumes "generate_catch pf e s = (s', waits)"
  shows "suspended s' = suspended s"
    and "generateButton_disabled s' = generateButton_disabled s"
    and "waits \<Longrightarrow> openSelectKey_defined pf \<and> openSelectKey_calls s' = Suc (openSelectKey_calls s)"
  using assms
  by (auto simp: generate_catch_def openApiKeyDialog_def showStatusError_def Let_def
           split: prod.splits if_splits)

lemma generate_resume_returned:
  "generate_try pf fp r io s = Inr s1 \<Longrightarrow>
   generate_resume pf fp r io s = (setControlsDisabled False s1, None)"
  by (simp add: generate_resume_def)

lemma generate_resume_thrown:
  assumes "generate_try pf fp r io s = Inl (e, s1)" and "generate_catch pf e s1 = (s2, waits)"
  shows "generate_resume pf fp r io s
           = (if waits then (s2, Some AwaitOpenSelectKey) else (setControlsDisabled False s2, None))"
  using assms by (simp add: generate_resume_def)

lemma generate_resume_cases:
  obtains (returned) s1 where "generate_try pf fp r io s = Inr s1"
      "generate_resume pf fp r io s = (setControlsDisabled False s1, None)"
    | (reported) e s1 s2 where "generate_try pf fp r io s = Inl (e, s1)"
      "generate_catch pf e s1 = (s2, False)"
      "generate_resume pf fp r io s = (setControlsDisabled False s2, None)"
    | (waiting) e s1 s2 where "generate_try pf fp r io s = Inl (e, s1)"
      "generate_catch pf e s1 = (s2, True)"
      "generate_resume pf fp r io s = (s2, Some AwaitOpenSelectKey)"
proof (cases "generate_try pf fp r io s")
  case (Inr s1)
  then show ?thesis using returned generate_resume_returned by blast
next
  case (Inl thrown_in)
  obtain e s1 where es: "thrown_in = (e, s1)" by (cases thrown_in)
  obtain s2 waits where c: "generate_catch pf e s1 = (s2, waits)"
    by (cases "generate_catch pf e s1")
  show ?thesis
  proof (cases waits)
    case True
    with Inl es c generate_resume_thrown [of pf fp r io s e s1 s2 True] waiting
    show ?thesis by simp
  next
    case False
    with Inl es c generate_resume_thrown [of pf fp r io s e s1 s2 False] reported
    show ?thesis by simp
  qed
qed

lemma generate_resume_suspended:
  "suspended s' = suspended s" if "generate_resume pf fp r io s = (s', f)"
proof (cases pf fp r io s rule: generate_resume_cases)
  case (returned s1)
  with that generate_try_keeps(1) [OF disjI1, of pf fp r io s s1] show ?thesis
    by (auto simp: setControlsDisabled_def)
next
  case (reported e s1 s2)
  with that generate_try_keeps(1) [OF disjI2, of pf fp r io s e s1]
       generate_catch_keeps(1) [of pf e s1 s2 False]
  show ?thesis by (auto simp: setControlsDisabled_def)
next
  case (waiting e s1 s2)
  with that generate_try_keeps(1) [OF disjI2, of pf fp r io s e s1]
       generate_catch_keeps(1) [of pf e s1 s2 True]
  show ?thesis by auto
qed

lemma generate_resume_exit:
  "snd (generate_resume pf fp r io s) = None \<Longrightarrow>
   controls_enabled (fst (generate_resume pf fp r io s))"
  by (cases pf fp r io s rule: generate_resume_cases) (simp_all add: setControlsDisabled_enabled)

lemma generate_resume_wait:
  assumes "snd (generate_resume pf fp r io s) \<noteq> None"
  shows "snd (generate_resume pf fp r io s) = Some AwaitOpenSelectKey
         \<and> (\<exists>e s1. generate_try pf fp r io s = Inl (e, s1))
         \<and> openSelectKey_defined pf
         \<and> openSelectKey_calls (fst (generate_resume pf fp r io s)) = Suc (openSelectKey_calls s)
         \<and> generateButton_disabled (fst (generate_resume pf fp r io s)) = generateButton_disabled s"
proof (cases pf fp r io s rule: generate_resume_cases)
  case (returned s1)
  with assms show ?thesis by simp
next
  case (reported e s1 s2)
  with assms show ?thesis by simp
next
  case (waiting e s1 s2)
  with generate_try_keeps(2,3) [OF disjI2, of pf fp r io s e s1]
       generate_catch_keeps(2,3) [of pf e s1 s2 True]
  show ?thesis by auto
qed

lemma generate_try_success:
  assumes roundtrip: "\<forall>h. JSON_parse pf (JSON_stringify pf h) = Inr (JArray h)"
      and nonempty: "\<forall>h. JSON_stringify pf h \<noteq> []"
      and stored: "getHistory pf (localStorage s) = Inr (JArray h)"
      and written: "setItem_throws io = None"
  shows "\<exists>s'. generate_try pf fp (Response (Some (img # imgs))) io s = Inr s'
             \<and> statusEl s' = InnerText (js ''Image generated successfully.'')"
proof -
  define s2 where
    "s2 = s\<lparr>outputImage_src := js ''data:image/jpeg;base64,'' @ img,
            outputImage_display := js ''block'',
            statusEl := InnerText (js ''Image generated successfully.''),
            downloadButton_disabled := False\<rparr>"
  define item where
    "item = \<lparr>item_id = randomUUID io, item_prompt = fp,
             imageUrl = src_getter pf (outputImage_src s2), timestamp = Date_now io\<rparr>"
  have "getHistory pf (localStorage s2) = Inr (JArray h)"
    using stored by (simp add: s2_def)
  from addToHistory_loaded [OF roundtrip nonempty this, of item]
  obtain store' where
    added: "addToHistory pf None item (localStorage s2) = Inr store'"
      and kept: "getHistory pf store' = Inr (JArray (take MAX_HISTORY_ITEMS (item # h)))"
    by blast
  have "take MAX_HISTORY_ITEMS (item # h) \<noteq> []"
    by (simp add: MAX_HISTORY_ITEMS_def)
  with kept have "\<exists>s'. renderHistory pf (s2\<lparr>localStorage := store'\<rparr>) = Inr s'
                       \<and> statusEl s' = statusEl s2"
    by (simp add: renderHistory_def Let_def)
  moreover have "generate_try pf fp (Response (Some (img # imgs))) io s
                   = renderHistory pf (s2\<lparr>localStorage := store'\<rparr>)"
    using added written
    by (simp add: generate_try_def generateImage_resume_def Let_def s2_def item_def)
  ultimately show ?thesis by (auto simp: s2_def)
qed

lemma finalPrompt_controls:
  "finalPrompt (setControlsDisabled True
                  (s\<lparr>statusEl := st, outputImage_display := d, downloadButton_disabled := b\<rparr>))
     = finalPrompt s"
  by (simp add: finalPrompt_unfold setControlsDisabled_def)

lemma generate_with_key:
  assumes "API_KEY pf = Some apiKey" and "apiKey \<noteq> []"
  shows "\<exists>s'. generate pf s = (s', Some (AwaitGenerateImages (finalPrompt s)))
             \<and> generateButton_disabled s' \<and> promptEl_disabled s' \<and> negativePromptEl_disabled s'
             \<and> aspectRatioSelect_disabled s' \<and> qualityPresetSelect_disabled s'
             \<and> cameraViewSelect_disabled s'
             \<and> suspended s' = suspended s \<and> openSelectKey_calls s' = openSelectKey_calls s"
  using assms
  by (simp add: generate_def Let_def finalPrompt_controls) (simp add: setControlsDisabled_def)

lemma resume_only_frame:
  assumes "suspended s = [AwaitGenerateImages fp]"
  shows "resume pf 0 (ApiSettled r io) s
           = suspend (generate_resume pf fp r io (s\<lparr>suspended := []\<rparr>))"
  using assms by (simp add: resume_def)

text \<open>
  C5. A call of \<^verbatim>\<open>generate\<close> that reached the request to the image model is resumed with
  its answer (the request rejected with any value, answered without images or with images,
  the write to the storage throwing or not). If the \<^verbatim>\<open>try\<close> block then runs to its end,
  the call ends at once, with the state the block left and the six controls enabled; on a
  host whose JSON round trip holds, an answer with an image and a write that does not throw
  make it so, with the success status. If the call ends without waiting, the six controls
  are enabled. It is left waiting only for the key dialog, only after something was thrown
  in the \<^verbatim>\<open>try\<close> block, only on a host that provides the dialog, and after opening the
  dialog exactly once; however the dialog ends, resolved or rejected, the call then ends
  with the six controls enabled. For a click on an idle page with a key and a prompt: the
  click leaves the six controls disabled and one call suspended at the request; after the
  answer either no call is suspended and the controls are enabled, or the call waits for
  the dialog, opened once; after the dialog has settled too, no call is suspended and the
  controls are enabled.
\<close>

theorem controls_reenabled:
  "(\<forall>s1. generate_try pf fp r io s = Inr s1 \<longrightarrow>
          generate_resume pf fp r io s = (setControlsDisabled False s1, None))
   \<and> ((\<forall>h. JSON_parse pf (JSON_stringify pf h) = Inr (JArray h))
       \<and> (\<forall>h. JSON_stringify pf h \<noteq> [])
       \<and> (\<exists>h. getHistory pf (localStorage s) = Inr (JArray h))
       \<and> setItem_throws io = None \<longrightarrow>
         snd (generate_resume pf fp (Response (Some (img # imgs))) io s) = None
         \<and> controls_enabled (fst (generate_resume pf fp (Response (Some (img # imgs))) io s))
         \<and> statusEl (fst (generate_resume pf fp (Response (Some (img # imgs))) io s))
             = InnerText (js ''Image generated successfully.''))
   \<and> (snd (generate_resume pf fp r io s) = None \<longrightarrow>
         controls_enabled (fst (generate_resume pf fp r io s)))
   \<and> (snd (generate_resume pf fp r io s) \<noteq> None \<longrightarrow>
         snd (generate_resume pf fp r io s) = Some AwaitOpenSelectKey
         \<and> (\<exists>e s1. generate_try pf fp r io s = Inl (e, s1))
         \<and> openSelectKey_defined pf
         \<and> openSelectKey_calls (fst (generate_resume pf fp r io s)) = Suc (openSelectKey_calls s))
   \<and> generate_resume_dialog d s = setControlsDisabled False s
   \<and> controls_enabled (generate_resume_dialog d s)
   \<and> ((\<exists>apiKey. API_KEY pf = Some apiKey \<and> apiKey \<noteq> []) \<and> trim (prompt s) \<noteq> []
        \<and> \<not> generateButton_disabled s \<and> suspended s = [] \<longrightarrow>
         suspended (run pf [GenerateClick] s) = [AwaitGenerateImages (finalPrompt s)]
         \<and> generateButton_disabled (run pf [GenerateClick] s)
         \<and> promptEl_disabled (run pf [GenerateClick] s)
         \<and> negativePromptEl_disabled (run pf [GenerateClick] s)
         \<and> aspectRatioSelect_disabled (run pf [GenerateClick] s)
         \<and> qualityPresetSelect_disabled (run pf [GenerateClick] s)
         \<and> cameraViewSelect_disabled (run pf [GenerateClick] s)
         \<and> (suspended (run pf [GenerateClick, Settled 0 (ApiSettled r io)] s) = []
              \<and> controls_enabled (run pf [GenerateClick, Settled 0 (ApiSettled r io)] s)
            \<or> suspended (run pf [GenerateClick, Settled 0 (ApiSettled r io)] s)
                 = [AwaitOpenSelectKey]
              \<and> openSelectKey_defined pf
              \<and> openSelectKey_calls (run pf [GenerateClick, Settled 0 (ApiSettled r io)] s)
                  = Suc (openSelectKey_calls s))
         \<and> controls_enabled
             (run pf [GenerateClick, Settled 0 (ApiSettled r io), Settled 0 (DialogSettled d)] s)
         \<and> suspended
             (run pf [GenerateClick, Settled 0 (ApiSettled r io), Settled 0 (DialogSettled d)] s)
               = [])"
proof (intro conjI impI allI)
  show "generate_resume pf fp r io s = (setControlsDisabled False s1, None)"
    if "generate_try pf fp r io s = Inr s1" for s1
    using that by (rule generate_resume_returned)
  show "controls_enabled (fst (generate_resume pf fp r io s))"
    if "snd (generate_resume pf fp r io s) = None"
    using that by (rule generate_resume_exit)
  show "generate_resume_dialog d s = setControlsDisabled False s"
    by (simp add: generate_resume_dialog_def)
  show "controls_enabled (generate_resume_dialog d s)"
    by (simp add: generate_resume_dialog_def setControlsDisabled_enabled)
next
  assume wait: "snd (generate_resume pf fp r io s) \<noteq> None"
  from generate_resume_wait [OF this]
  show "snd (generate_resume pf fp r io s) = Some AwaitOpenSelectKey"
    and "\<exists>e s1. generate_try pf fp r io s = Inl (e, s1)"
    and "openSelectKey_defined pf"
    and "openSelectKey_calls (fst (generate_resume pf fp r io s)) = Suc (openSelectKey_calls s)"
    by blast+
next
  assume good: "(\<forall>h. JSON_parse pf (JSON_stringify pf h) = Inr (JArray h))
       \<and> (\<forall>h. JSON_stringify pf h \<noteq> [])
       \<and> (\<exists>h. getHistory pf (localStorage s) = Inr (JArray h))
       \<and> setItem_throws io = None"
  then obtain h where "getHistory pf (localStorage s) = Inr (JArray h)" by blast
  with good obtain s1 where
    t: "generate_try pf fp (Response (Some (img # imgs))) io s = Inr s1"
       "statusEl s1 = InnerText (js ''Image generated successfully.'')"
    using generate_try_success [of pf s h io fp img imgs] by blast
  have res: "generate_resume pf fp (Response (Some (img # imgs))) io s
          = (setControlsDisabled False s1, None)"
    using t(1) by (rule generate_resume_returned)
  show "snd (generate_resume pf fp (Response (Some (img # imgs))) io s) = None"
    by (simp add: res)
  show "controls_enabled (fst (generate_resume pf fp (Response (Some (img # imgs))) io s))"
    by (simp add: res setControlsDisabled_enabled)
  show "statusEl (fst (generate_resume pf fp (Response (Some (img # imgs))) io s))
             = InnerText (js ''Image generated successfully.'')"
    using t(2) by (simp add: res setControlsDisabled_def)
next
  assume pre: "(\<exists>apiKey. API_KEY pf = Some apiKey \<and> apiKey \<noteq> []) \<and> trim (prompt s) \<noteq> []
        \<and> \<not> generateButton_disabled s \<and> suspended s = []"
  then obtain s1 where
    g: "generate pf s = (s1, Some (AwaitGenerateImages (finalPrompt s)))"
       "generateButton_disabled s1" "promptEl_disabled s1" "negativePromptEl_disabled s1"
       "aspectRatioSelect_disabled s1" "qualityPresetSelect_disabled s1"
       "cameraViewSelect_disabled s1" "suspended s1 = []"
       "openSelectKey_calls s1 = openSelectKey_calls s"
    using generate_with_key [of pf _ s] by auto
  define c1 where "c1 = s1\<lparr>suspended := [AwaitGenerateImages (finalPrompt s)]\<rparr>"
  have click: "run pf [GenerateClick] s = c1"
    using pre g by (simp add: generateButton_click_def suspend_def c1_def)
  show "suspended (run pf [GenerateClick] s) = [AwaitGenerateImages (finalPrompt s)]"
    and "generateButton_disabled (run pf [GenerateClick] s)"
    and "promptEl_disabled (run pf [GenerateClick] s)"
    and "negativePromptEl_disabled (run pf [GenerateClick] s)"
    and "aspectRatioSelect_disabled (run pf [GenerateClick] s)"
    and "qualityPresetSelect_disabled (run pf [GenerateClick] s)"
    and "cameraViewSelect_disabled (run pf [GenerateClick] s)"
    unfolding click using g by (simp_all add: c1_def)
  define inflight where "inflight = c1\<lparr>suspended := []\<rparr>"
  have inflight: "suspended inflight = []" "openSelectKey_calls inflight = openSelectKey_calls s"
    using g by (simp_all add: inflight_def c1_def)
  obtain s3 f where r3: "generate_resume pf (finalPrompt s) r io inflight = (s3, f)"
    by (cases "generate_resume pf (finalPrompt s) r io inflight")
  have idle3: "suspended s3 = []"
    using generate_resume_suspended [OF r3] inflight by simp
  have "run pf [GenerateClick, Settled 0 (ApiSettled r io)] s
          = step pf (Settled 0 (ApiSettled r io)) (run pf [GenerateClick] s)"
    by (simp del: step.simps)
  also have "\<dots> = suspend (s3, f)"
    unfolding click using resume_only_frame [of c1 "finalPrompt s" pf r io] r3
    by (simp add: c1_def inflight_def)
  finally have answered:
    "run pf [GenerateClick, Settled 0 (ApiSettled r io)] s = suspend (s3, f)" .
  have "run pf [GenerateClick, Settled 0 (ApiSettled r io), Settled 0 (DialogSettled d)] s
          = step pf (Settled 0 (DialogSettled d))
              (run pf [GenerateClick, Settled 0 (ApiSettled r io)] s)"
    by (simp del: step.simps)
  then have settled:
    "run pf [GenerateClick, Settled 0 (ApiSettled r io), Settled 0 (DialogSettled d)] s
       = resume pf 0 (DialogSettled d) (suspend (s3, f))"
    unfolding answered by simp
  show "suspended (run pf [GenerateClick, Settled 0 (ApiSettled r io)] s) = []
              \<and> controls_enabled (run pf [GenerateClick, Settled 0 (ApiSettled r io)] s)
            \<or> suspended (run pf [GenerateClick, Settled 0 (ApiSettled r io)] s)
                 = [AwaitOpenSelectKey]
              \<and> openSelectKey_defined pf
              \<and> openSelectKey_calls (run pf [GenerateClick, Settled 0 (ApiSettled r io)] s)
                  = Suc (openSelectKey_calls s)"
  proof (cases f)
    case None
    with generate_resume_exit [of pf "finalPrompt s" r io inflight] r3 idle3
    show ?thesis unfolding answered by (simp add: suspend_def)
  next
    case (Some fr)
    with generate_resume_wait [of pf "finalPrompt s" r io inflight] r3 idle3 inflight
    show ?thesis unfolding answered by (simp add: suspend_def)
  qed
  have final: "controls_enabled (resume pf 0 (DialogSettled d) (suspend (s3, f)))
             \<and> suspended (resume pf 0 (DialogSettled d) (suspend (s3, f))) = []"
  proof (cases f)
    case None
    with generate_resume_exit [of pf "finalPrompt s" r io inflight] r3 idle3
    show ?thesis by (simp add: suspend_def resume_def)
  next
    case (Some fr)
    with generate_resume_wait [of pf "finalPrompt s" r io inflight] r3
    have "fr = AwaitOpenSelectKey" by simp
    with Some idle3 show ?thesis
      by (simp add: suspend_def resume_def generate_resume_dialog_def setControlsDisabled_def
                    controls_enabled_def)
  qed
  show "controls_enabled
           (run pf [GenerateClick, Settled 0 (ApiSettled r io), Settled 0 (DialogSettled d)] s)"
    unfolding settled using final by simp
  show "suspended
           (run pf [GenerateClick, Settled 0 (ApiSettled r io), Settled 0 (DialogSettled d)] s) = []"
    unfolding settled using final by simp
qed

theorem controls_reenabled_witness:
  "(\<exists>apiKey. API_KEY host = Some apiKey \<and> apiKey \<noteq> [])
   \<and> trim (prompt (loaded\<lparr>prompt := js ''a cat''\<rparr>)) \<noteq> []
   \<and> \<not> generateButton_disabled (loaded\<lparr>prompt := js ''a cat''\<rparr>)
   \<and> suspended (loaded\<lparr>prompt := js ''a cat''\<rparr>) = []
   \<and> generateButton_disabled (run host [GenerateClick] (loaded\<lparr>prompt := js ''a cat''\<rparr>))
   \<and> controls_enabled
        (run host [GenerateClick,
                   Settled 0 (ApiSettled (Rejected (ErrorObject (js ''400 API_KEY_INVALID'')))
                                \<lparr>randomUUID = js ''id'', Date_now = 0, setItem_throws = None\<rparr>),
                   Settled 0 (DialogSettled None)]
           (loaded\<lparr>prompt := js ''a cat''\<rparr>))
   \<and> (\<exists>h. getHistory host (localStorage (loaded\<lparr>prompt := js ''a cat''\<rparr>)) = Inr (JArray h))
   \<and> snd (generate_resume host (js ''a cat'') (Response (Some [js ''AAAA'']))
             \<lparr>randomUUID = js ''id'', Date_now = 0, setItem_throws = None\<rparr>
             (loaded\<lparr>prompt := js ''a cat''\<rparr>)) = None
   \<and> controls_enabled
        (fst (generate_resume host (js ''a cat'') (Response (Some [js ''AAAA'']))
                \<lparr>randomUUID = js ''id'', Date_now = 0, setItem_throws = None\<rparr>
                (loaded\<lparr>prompt := js ''a cat''\<rparr>)))
   \<and> statusEl
        (fst (generate_resume host (js ''a cat'') (Response (Some [js ''AAAA'']))
                \<lparr>randomUUID = js ''id'', Date_now = 0, setItem_throws = None\<rparr>
                (loaded\<lparr>prompt := js ''a cat''\<rparr>)))
       = InnerText (js ''Image generated successfully.'')"
proof -
  have key: "\<exists>apiKey. API_KEY host = Some apiKey \<and> apiKey \<noteq> []"
    by (simp add: host_def js_def)
  have typed: "trim (prompt (loaded\<lparr>prompt := js ''a cat''\<rparr>)) \<noteq> []"
    by (simp add: trim_def js_def WhiteSpace_def LineTerminator_def)
  have idle: "\<not> generateButton_disabled (loaded\<lparr>prompt := js ''a cat''\<rparr>)"
             "suspended (loaded\<lparr>prompt := js ''a cat''\<rparr>) = []"
    by (simp_all add: loaded_def)
  have stored: "\<exists>h. getHistory host (localStorage (loaded\<lparr>prompt := js ''a cat''\<rparr>))
                      = Inr (JArray h)"
    by (simp add: loaded_def getHistory_def)
  have written: "setItem_throws \<lparr>randomUUID = js ''id'', Date_now = 0, setItem_throws = None\<rparr>
                   = None"
    by simp
  note all = controls_reenabled
      [of host "js ''a cat''" "Rejected (ErrorObject (js ''400 API_KEY_INVALID''))"
          "\<lparr>randomUUID = js ''id'', Date_now = 0, setItem_throws = None\<rparr>"
          "loaded\<lparr>prompt := js ''a cat''\<rparr>" "js ''AAAA''" "[]" None]
  note success = all [THEN conjunct2, THEN conjunct1, rule_format,
                      OF conjI [OF host_roundtrip conjI [OF host_nonempty conjI [OF stored written]]]]
  note flow = all [THEN conjunct2, THEN conjunct2, THEN conjunct2, THEN conjunct2,
                   THEN conjunct2, THEN conjunct2, rule_format,
                   OF conjI [OF key conjI [OF typed conjI [OF idle(1) idle(2)]]]]
  show ?thesis
    using key typed idle stored success flow by blast
qed

section \<open>One request at a time\<close>

lemma generate_frame:
  "generate pf s = (s', f) \<Longrightarrow>
   suspended s' = suspended s \<and> (f \<noteq> None \<longrightarrow> generateButton_disabled s')"
  by (auto simp: generate_def Let_def openApiKeyDialog_def showStatusError_def
                 setControlsDisabled_def split: option.splits if_splits)

lemma generateButton_click_frame:
  "generateButton_click pf s = (s', f) \<Longrightarrow>
   suspended s' = suspended s \<and> (f \<noteq> None \<longrightarrow> generateButton_disabled s')"
  using generate_frame [of pf s s' f]
  by (auto simp: generateButton_click_def showStatusError_def split: if_splits)

lemma generate_resume_button:
  "generateButton_disabled s'" if "generate_resume pf fp r io s = (s', Some f)"
    and "generateButton_disabled s"
  using generate_resume_wait [of pf fp r io s] that by simp

lemma clearHistoryButton_click_frame:
  "suspended (clearHistoryButton_click pf confirmed s) = suspended s
   \<and> generateButton_disabled (clearHistoryButton_click pf confirmed s) = generateButton_disabled s"
proof (cases confirmed)
  case False
  then show ?thesis by (simp add: clearHistoryButton_click_def)
next
  case True
  show ?thesis
  proof (cases "renderHistory pf (s\<lparr>localStorage := (localStorage s)(HISTORY_KEY := None)\<rparr>)")
    case (Inr s')
    with True renderHistory_keeps(1,2) [OF disjI1, OF Inr] show ?thesis
      by (simp add: clearHistoryButton_click_def)
  next
    case (Inl thrown_in)
    obtain e s' where "thrown_in = (e, s')" by (cases thrown_in)
    with True Inl renderHistory_keeps(1,2) [OF disjI2, of pf _ e s'] show ?thesis
      by (simp add: clearHistoryButton_click_def)
  qed
qed

lemma step_single_flight:
  assumes "single_flight s"
  shows "single_flight (step pf e s)"
proof (cases e)
  case GenerateClick
  show ?thesis
  proof (cases "generateButton_disabled s")
    case True
    with assms GenerateClick show ?thesis by simp
  next
    case False
    with assms have idle: "suspended s = []" by (auto simp: single_flight_def)
    obtain s' f where c: "generateButton_click pf s = (s', f)"
      by (cases "generateButton_click pf s")
    from generateButton_click_frame [OF c] idle False GenerateClick c show ?thesis
      by (cases f) (auto simp: single_flight_def suspend_def)
  qed
next
  case (ClearHistoryClick confirmed)
  with assms clearHistoryButton_click_frame [of pf confirmed s] show ?thesis
    by (auto simp: single_flight_def)
next
  case (HistoryItemClick i)
  with assms show ?thesis
    by (auto simp: single_flight_def historyItemEl_click_def Let_def)
next
  case (Settled i outcome)
  show ?thesis
  proof (cases "suspended s")
    case Nil
    with assms Settled show ?thesis by (simp add: resume_def)
  next
    case (Cons fr frs)
    with assms have one: "suspended s = [fr]" and busy: "generateButton_disabled s"
      by (auto simp: single_flight_def)
    show ?thesis
    proof (cases i)
      case (Suc j)
      with one Settled assms show ?thesis by (simp add: resume_def)
    next
      case 0
      show ?thesis
      proof (cases fr)
        case (AwaitGenerateImages fp)
        show ?thesis
        proof (cases outcome)
          case (ApiSettled r io)
          obtain s' f where g: "generate_resume pf fp r io (s\<lparr>suspended := []\<rparr>) = (s', f)"
            by (cases "generate_resume pf fp r io (s\<lparr>suspended := []\<rparr>)")
          have idle: "suspended s' = []"
            using generate_resume_suspended [OF g] by simp
          have "single_flight (suspend (s', f))"
          proof (cases f)
            case None
            with idle show ?thesis by (simp add: single_flight_def suspend_def)
          next
            case (Some fr')
            with generate_resume_button [of pf fp r io "s\<lparr>suspended := []\<rparr>" s' fr'] g busy idle
            show ?thesis by (simp add: single_flight_def suspend_def)
          qed
          with Settled 0 one AwaitGenerateImages ApiSettled g show ?thesis
            by (simp add: resume_def)
        next
          case (DialogSettled d)
          with Settled 0 one AwaitGenerateImages assms show ?thesis
            by (simp add: resume_def)
        qed
      next
        case AwaitOpenSelectKey
        show ?thesis
        proof (cases outcome)
          case (ApiSettled r io)
          with Settled 0 one AwaitOpenSelectKey assms show ?thesis
            by (simp add: resume_def)
        next
          case (DialogSettled d)
          with Settled 0 one AwaitOpenSelectKey show ?thesis
            by (simp add: resume_def generate_resume_dialog_def setControlsDisabled_def
                          single_flight_def)
        qed
      qed
    qed
  qed
qed (use assms in \<open>auto simp: single_flight_def\<close>)

lemma run_single_flight: "single_flight s \<Longrightarrow> single_flight (run pf es s)"
  by (induction es arbitrary: s) (simp_all add: step_single_flight)

lemma step_GenerateClick_busy:
  assumes "API_KEY pf = Some apiKey" and "apiKey \<noteq> []" and "trim (prompt s) \<noteq> []"
      and "\<not> generateButton_disabled s"
  shows "suspended (step pf GenerateClick s) \<noteq> []"
proof -
  obtain s' fp where "generate pf s = (s', Some (AwaitGenerateImages fp))"
    using generate_with_key [OF assms(1,2), of s] by blast
  with assms(3,4) show ?thesis
    by (simp add: generateButton_click_def suspend_def)
qed

text \<open>
  C9. From a page with no suspended call, after any sequence of events: while a call of
  \<^verbatim>\<open>generate\<close> is suspended (its request to the image model is in flight, or the key
  dialog of its \<^verbatim>\<open>catch\<close> block is open), it is the only one, the generate button is
  disabled, and a click on the button changes nothing: no request is added and the storage
  is what it was.
\<close>

theorem second_submit_ignored:
  assumes "suspended s0 = []" and "suspended (run pf es s0) \<noteq> []"
  shows "step pf GenerateClick (run pf es s0) = run pf es s0
         \<and> length (suspended (run pf es s0)) = 1
         \<and> generateImages_calls (step pf GenerateClick (run pf es s0))
             = generateImages_calls (run pf es s0)
         \<and> localStorage (step pf GenerateClick (run pf es s0)) = localStorage (run pf es s0)"
proof -
  have "single_flight s0"
    using assms(1) by (simp add: single_flight_def)
  then have "single_flight (run pf es s0)"
    by (rule run_single_flight)
  with assms(2) have "length (suspended (run pf es s0)) = 1"
    and "generateButton_disabled (run pf es s0)"
    by (auto simp: single_flight_def)
  then show ?thesis by simp
qed

theorem second_submit_ignored_witness:
  "suspended loaded = []
   \<and> suspended (run host [PromptInput (js ''a cat''), GenerateClick] loaded) \<noteq> []
   \<and> step host GenerateClick (run host [PromptInput (js ''a cat''), GenerateClick] loaded)
       = run host [PromptInput (js ''a cat''), GenerateClick] loaded"
proof -
  have idle: "suspended loaded = []"
    by (simp add: loaded_def)
  have typed: "step host (PromptInput (js ''a cat'')) loaded
                 = loaded\<lparr>promptEl_value := js ''a cat'', prompt := js ''a cat''\<rparr>"
    by (simp add: loaded_def)
  have "suspended (step host GenerateClick
                     (loaded\<lparr>promptEl_value := js ''a cat'', prompt := js ''a cat''\<rparr>)) \<noteq> []"
  proof (rule step_GenerateClick_busy)
    show "API_KEY host = Some (js ''key'')" by (simp add: host_def)
    show "js ''key'' \<noteq> []" by (simp add: js_def)
    show "trim (prompt (loaded\<lparr>promptEl_value := js ''a cat'', prompt := js ''a cat''\<rparr>)) \<noteq> []"
      by (simp add: trim_def js_def WhiteSpace_def LineTerminator_def)
    show "\<not> generateButton_disabled (loaded\<lparr>promptEl_value := js ''a cat'', prompt := js ''a cat''\<rparr>)"
      by (simp add: loaded_def)
  qed
  then have busy: "suspended (run host [PromptInput (js ''a cat''), GenerateClick] loaded) \<noteq> []"
    using typed by (simp del: step.simps)
  show ?thesis
    using second_submit_ignored [OF idle busy] idle busy by blast
qed

section \<open>Restoring a prompt from the history\<close>

lemma split_first_quality:
  "split_first (js '', photorealistic'')
     (js '', '' @ qualityKeywords preset @ js '', '' @ commonKeywords @ rest)
   = js '', '' @ qualityKeywords preset"
  by (simp add: qualityKeywords_def commonKeywords_eq) (simp add: js_def)

lemma restored_composed:
  fixes c :: "'a inputs_scheme"
  assumes "\<not> js_includes (prompt c @ cameraViewPrompt (cameraView c)) (js '', photorealistic'')"
  shows "split_first (js '', photorealistic'') (finalPrompt c)
           = prompt c @ cameraViewPrompt (cameraView c) @ js '', '' @ qualityKeywords (qualityPreset c)"
proof -
  define rest where
    "rest = (if trim (negativePrompt c) \<noteq> []
             then js ''. Negative prompt: '' @ trim (negativePrompt c) else [])"
  define b where "b = js '', '' @ qualityKeywords (qualityPreset c) @ js '', '' @ commonKeywords @ rest"
  have whole: "finalPrompt c = (prompt c @ cameraViewPrompt (cameraView c)) @ b"
    by (simp add: finalPrompt_unfold b_def rest_def)
  have "b \<noteq> []" and "hd b \<notin> set (tl (js '', photorealistic''))"
    by (simp_all add: b_def js_def)
  with assms have "split_first (js '', photorealistic'') (finalPrompt c)
                     = (prompt c @ cameraViewPrompt (cameraView c)) @ split_first (js '', photorealistic'') b"
    unfolding whole by (rule split_first_append)
  then show ?thesis
    by (simp add: b_def split_first_quality)
qed

text \<open>
  C10 (amended). A click on a history item sets the prompt (the state variable and the text
  area) to the part of the item's stored prompt before the first occurrence of
  ", photorealistic", or to the whole stored prompt when there is no occurrence. When the
  stored prompt was composed from a configuration whose prompt and camera clause do not
  themselves contain ", photorealistic", the restored prompt is the prompt, the camera
  clause, ", " and the quality keywords, which is never the prompt alone.
\<close>

theorem restore_main_prompt:
  fixes c :: "'a inputs_scheme"
  shows "prompt (historyItemEl_click item s) = split_first (js '', photorealistic'') (item_prompt item)
   \<and> promptEl_value (historyItemEl_click item s) = prompt (historyItemEl_click item s)
   \<and> ((\<exists>rest. item_prompt item
                  = prompt (historyItemEl_click item s) @ js '', photorealistic'' @ rest
              \<and> (\<forall>p r. item_prompt item = p @ js '', photorealistic'' @ r
                     \<longrightarrow> length (prompt (historyItemEl_click item s)) \<le> length p))
       \<or> (prompt (historyItemEl_click item s) = item_prompt item
           \<and> (\<forall>p r. item_prompt item \<noteq> p @ js '', photorealistic'' @ r)))
   \<and> (item_prompt item = finalPrompt c
        \<and> (\<forall>p r. prompt c @ cameraViewPrompt (cameraView c) \<noteq> p @ js '', photorealistic'' @ r)
       \<longrightarrow> prompt (historyItemEl_click item s)
             = prompt c @ cameraViewPrompt (cameraView c) @ js '', ''
                 @ qualityKeywords (qualityPreset c)
           \<and> prompt (historyItemEl_click item s) \<noteq> prompt c)"
proof (intro conjI impI)
  show restored: "prompt (historyItemEl_click item s)
                    = split_first (js '', photorealistic'') (item_prompt item)"
    by (simp add: historyItemEl_click_def Let_def)
  show "promptEl_value (historyItemEl_click item s) = prompt (historyItemEl_click item s)"
    by (simp add: historyItemEl_click_def Let_def)
  show "(\<exists>rest. item_prompt item
                  = prompt (historyItemEl_click item s) @ js '', photorealistic'' @ rest
              \<and> (\<forall>p r. item_prompt item = p @ js '', photorealistic'' @ r
                     \<longrightarrow> length (prompt (historyItemEl_click item s)) \<le> length p))
       \<or> (prompt (historyItemEl_click item s) = item_prompt item
           \<and> (\<forall>p r. item_prompt item \<noteq> p @ js '', photorealistic'' @ r))"
  proof (cases "js_includes (item_prompt item) (js '', photorealistic'')")
    case True
    from split_first_cut [OF True] split_first_earliest [of "item_prompt item" _ "js '', photorealistic''"]
    show ?thesis unfolding restored by blast
  next
    case False
    from split_first_whole [OF False] False show ?thesis
      unfolding restored js_includes_iff by blast
  qed
next
  assume composed: "item_prompt item = finalPrompt c
        \<and> (\<forall>p r. prompt c @ cameraViewPrompt (cameraView c) \<noteq> p @ js '', photorealistic'' @ r)"
  then have "\<not> js_includes (prompt c @ cameraViewPrompt (cameraView c)) (js '', photorealistic'')"
    by (simp add: js_includes_iff)
  from restored_composed [OF this] composed
  show eq: "prompt (historyItemEl_click item s)
             = prompt c @ cameraViewPrompt (cameraView c) @ js '', ''
                 @ qualityKeywords (qualityPreset c)"
    by (simp add: historyItemEl_click_def Let_def)
  show "prompt (historyItemEl_click item s) \<noteq> prompt c"
    unfolding eq by (simp add: js_def)
qed

theorem restore_main_prompt_witness:
  "\<not> js_includes (js ''a cat'' @ cameraViewPrompt (js ''low-angle'')) (js '', photorealistic'')
   \<and> prompt (historyItemEl_click
               \<lparr>item_id = js ''id'',
                item_prompt = finalPrompt \<lparr>prompt = js ''a cat'', negativePrompt = js ''blurry'',
                                           aspectRatio = js ''16:9'', qualityPreset = js ''sd'',
                                           cameraView = js ''low-angle''\<rparr>,
                imageUrl = js ''data:image/jpeg;base64,AAAA'', timestamp = 0\<rparr> loaded)
       = js ''a cat, Shot from a low angle perspective, 720p resolution, standard quality, sharp focus, basic detail''"
proof -
  have clean: "\<not> js_includes (js ''a cat'' @ cameraViewPrompt (js ''low-angle'')) (js '', photorealistic'')"
    by (simp add: cameraViewPrompt_def replace_hyphens_def js_def)
  then have hyp: "\<forall>p r. prompt \<lparr>prompt = js ''a cat'', negativePrompt = js ''blurry'',
                                           aspectRatio = js ''16:9'', qualityPreset = js ''sd'',
                                           cameraView = js ''low-angle''\<rparr>
                   @ cameraViewPrompt (cameraView \<lparr>prompt = js ''a cat'', negativePrompt = js ''blurry'',
                                           aspectRatio = js ''16:9'', qualityPreset = js ''sd'',
                                           cameraView = js ''low-angle''\<rparr>)
                 \<noteq> p @ js '', photorealistic'' @ r"
    by (simp add: js_includes_iff)
  note restored = restore_main_prompt
      [of "\<lparr>item_id = js ''id'',
                item_prompt = finalPrompt \<lparr>prompt = js ''a cat'', negativePrompt = js ''blurry'',
                                           aspectRatio = js ''16:9'', qualityPreset = js ''sd'',
                                           cameraView = js ''low-angle''\<rparr>,
                imageUrl = js ''data:image/jpeg;base64,AAAA'', timestamp = 0\<rparr>"
          loaded
          "\<lparr>prompt = js ''a cat'', negativePrompt = js ''blurry'',
                                           aspectRatio = js ''16:9'', qualityPreset = js ''sd'',
                                           cameraView = js ''low-angle''\<rparr>",
       THEN conjunct2, THEN conjunct2, THEN conjunct2, rule_format, OF conjI [OF _ hyp],
       THEN conjunct1]
  have "prompt (historyItemEl_click
               \<lparr>item_id = js ''id'',
                item_prompt = finalPrompt \<lparr>prompt = js ''a cat'', negativePrompt = js ''blurry'',
                                           aspectRatio = js ''16:9'', qualityPreset = js ''sd'',
                                           cameraView = js ''low-angle''\<rparr>,
                imageUrl = js ''data:image/jpeg;base64,AAAA'', timestamp = 0\<rparr> loaded)
       = js ''a cat, Shot from a low angle perspective, 720p resolution, standard quality, sharp focus, basic detail''"
    using restored by (simp add: cameraViewPrompt_def replace_hyphens_def qualityKeywords_def js_def)
  with clean show ?thesis by blast
qed

text \<open>
  C10 as stated fails when the user's prompt contains ", photorealistic": the restored
  prompt is then cut inside the user's prompt.
\<close>

theorem restore_main_prompt_counterexample:
  "prompt (historyItemEl_click
             \<lparr>item_id = js ''id'',
              item_prompt = finalPrompt \<lparr>prompt = js ''a cat, photorealistic style'',
                                         negativePrompt = js '''', aspectRatio = js ''16:9'',
                                         qualityPreset = js ''sd'', cameraView = js ''default''\<rparr>,
              imageUrl = js ''data:image/jpeg;base64,AAAA'', timestamp = 0\<rparr> loaded)
     = js ''a cat''
   \<and> js ''a cat'' \<noteq> js ''a cat, photorealistic style'' @ cameraViewPrompt (js ''default'') @ js '', ''
                        @ qualityKeywords (js ''sd'')"
proof -
  have "finalPrompt \<lparr>prompt = js ''a cat, photorealistic style'',
                     negativePrompt = js '''', aspectRatio = js ''16:9'',
                     qualityPreset = js ''sd'', cameraView = js ''default''\<rparr>
          = js ''a cat'' @ js '', photorealistic'' @ js '' style'' @ js '', ''
              @ qualityKeywords (js ''sd'') @ js '', '' @ commonKeywords"
    by (simp add: finalPrompt_unfold cameraViewPrompt_def js_def trim_Nil)
  moreover have "split_first (js '', photorealistic'') (js ''a cat'' @ js '', photorealistic'' @ rest)
                   = js ''a cat''" for rest
    by (simp add: js_def)
  ultimately show ?thesis
    by (simp add: historyItemEl_click_def Let_def) (simp add: js_def)
qed

end
